theory Spec2Isabelle
  imports Main "HOL-Library.AList"
begin

section \<open>Python values, exceptions and dictionaries\<close>

text \<open>
  The values that flow through a form: field values, widget attributes and plain
  configuration values. A float is carried as the text \<open>str\<close> gives for it (the code
  never computes with one); a date, time or datetime as its components;
  \<open>VBuiltin n\<close> is the builtin function of that name.
\<close>

datatype pyval =
    VNone
  | VBool bool
  | VInt int
  | VFloat string
  | VStr string
  | VSecretStr string
  | VDate nat nat nat
  | VTime nat nat nat
  | VDateTime nat nat nat nat nat nat
  | VBuiltin string

text \<open>
  What pydantic's \<open>ValidationError.raw_errors\<close> holds: \<open>ErrorWrapper(exc, loc)\<close> items, or
  nested lists of them. The wrapped exception is known by its class (a
  \<open>PydanticValueError\<close>, a \<open>PydanticTypeError\<close> such as "value is not a valid integer", or any
  other exception a validator raised) and its message; \<open>loc\<close> is a tuple of names and
  indices.
\<close>

datatype loc_item = LocStr string | LocInt int

datatype exc_class = PydanticValueError | PydanticTypeError | OtherException

datatype pyexc = Exc (exc_cls: exc_class) (exc_msg: string)

datatype raw_error = ErrorWrapper pyexc "loc_item list" | ErrorList "raw_error list"

datatype exn =
    ValidationError "raw_error list"
  | ValueError string
  | TypeError string
  | AssertionError
  | AttributeError string
  | KeyError string
  | NotImplementedError
  | Unmodelled string

text \<open>
  \<open>Unmodelled\<close> is no Python exception: it marks an input this development does not
  cover (a configuration attribute whose value has the wrong type, a reference to no
  object).
\<close>

text \<open>
  A \<open>dict\<close> with string keys is an association list in insertion order:
  \<open>AList.update\<close> replaces the value of a key in place and appends a new key at the end,
  as \<open>d[k] = v\<close> does; \<open>dict_update d e\<close> is \<open>d.update(e)\<close>.
\<close>

type_synonym 'v dict = "(string \<times> 'v) list"

definition dict_update :: "'v dict \<Rightarrow> 'v dict \<Rightarrow> 'v dict" where
  "dict_update d e = foldl (\<lambda>acc kv. AList.update (fst kv) (snd kv) acc) d e"

subsection \<open>\<open>str()\<close>\<close>

fun digits :: "nat \<Rightarrow> string" where
  "digits n = (if n < 10 then [''0123456789'' ! n]
               else digits (n div 10) @ [''0123456789'' ! (n mod 10)])"

declare digits.simps [simp del]

definition str_int :: "int \<Rightarrow> string" where
  "str_int i = (if i < 0 then CHR ''-'' # digits (nat (- i)) else digits (nat i))"

definition zpad :: "nat \<Rightarrow> nat \<Rightarrow> string" where
  "zpad w n = replicate (w - length (digits n)) (CHR ''0'') @ digits n"

fun py_str :: "pyval \<Rightarrow> string" where
  "py_str VNone = ''None''"
| "py_str (VBool b) = (if b then ''True'' else ''False'')"
| "py_str (VInt i) = str_int i"
| "py_str (VFloat s) = s"
| "py_str (VStr s) = s"
| "py_str (VSecretStr s) = (if s = [] then [] else ''**********'')"
| "py_str (VDate y m d) = zpad 4 y @ ''-'' @ zpad 2 m @ ''-'' @ zpad 2 d"
| "py_str (VTime h mi s) = zpad 2 h @ '':'' @ zpad 2 mi @ '':'' @ zpad 2 s"
| "py_str (VDateTime y m d h mi s) =
     zpad 4 y @ ''-'' @ zpad 2 m @ ''-'' @ zpad 2 d @ '' '' @
     zpad 2 h @ '':'' @ zpad 2 mi @ '':'' @ zpad 2 s"
| "py_str (VBuiltin n) = ''<built-in function '' @ n @ ''>''"

section \<open>Schema: field descriptors and model classes\<close>

text \<open>
  A Python class as the code inspects one: its name, the names of the classes in its
  method resolution order (itself first) and its class attributes. \<open>NotAClass\<close> is a
  \<open>type_\<close> that is no class at all (\<open>typing.Any\<close>, the \<open>Literal\<close> alias that \<open>Choice\<close>
  builds): \<open>issubclass\<close> raises \<open>TypeError\<close> on it.
\<close>

datatype pytype =
    PyClass (cls_name: string) (cls_mro: "string list") (cls_attrs: "pyval dict")
  | NotAClass string

definition issubclass :: "pytype \<Rightarrow> string list \<Rightarrow> exn + bool" where
  "issubclass t names = (case t of
      NotAClass _ \<Rightarrow> Inl (TypeError ''issubclass() arg 1 must be a class'')
    | PyClass _ ms _ \<Rightarrow> Inr (list_ex (\<lambda>c. List.member ms c) names))"

definition type_is :: "pytype \<Rightarrow> string \<Rightarrow> bool" where
  "type_is t n = (case t of NotAClass _ \<Rightarrow> False | PyClass m _ _ \<Rightarrow> m = n)"

definition getattr_type :: "pytype \<Rightarrow> string \<Rightarrow> pyval" where
  "getattr_type t k = (case t of
      NotAClass _ \<Rightarrow> VNone
    | PyClass _ _ as \<Rightarrow> (case map_of as k of None \<Rightarrow> VNone | Some v \<Rightarrow> v))"

text \<open>pydantic's \<open>ModelField\<close>: \<open>name\<close>, \<open>type_\<close>, \<open>required\<close>, \<open>default\<close>.\<close>

record ModelField =
  field_name :: string
  field_type :: pytype
  field_required :: bool
  field_default :: pyval

text \<open>
  An instance of a \<open>BaseModel\<close> subclass: the names of the classes its type inherits from
  (for \<open>isinstance\<close>) and what \<open>.dict()\<close> returns. A model class: its name, its
  \<open>__fields__\<close> and its constructor \<open>model_class(**data)\<close>, which is the validation
  engine: it returns the instance or raises.
\<close>

record model_inst =
  inst_mro :: "string list"
  inst_dict :: "pyval dict"

record model_class =
  model_name :: string
  model_fields :: "ModelField dict"
  model_new :: "pyval dict \<Rightarrow> exn + model_inst"

definition isinstance :: "model_inst \<Rightarrow> model_class \<Rightarrow> bool" where
  "isinstance i m = List.member (inst_mro i) (model_name m)"

section \<open>Widgets\<close>

datatype widget_class =
  Widget | Input | String | Password | Number | Date | Time | DateTime | Checkbox

datatype renderer = BaseRenderer | StringRenderer

text \<open>A widget instance: its class and its pydantic fields in field order.\<close>

record widget =
  widget_cls :: widget_class
  widget_dict :: "pyval dict"

section \<open>Configuration classes\<close>

text \<open>
  The value of a configuration attribute: a plain value (\<open>prefix\<close>), the schema
  (\<open>model\<close>), the renderer, or one of the two per-field maps.
\<close>

datatype cfgval =
    CVal pyval
  | CModel model_class
  | CRenderer renderer
  | CWidgetClasses "widget_class dict"
  | CWidgetKwargs "pyval dict dict"

text \<open>
  A configuration class: its identity, its own namespace and its bases. Python compares
  classes by identity, so two classes are the same when their \<open>cid\<close> is.
  \<open>object\<close>, which ends every resolution order and has no configuration key, is left
  out.
\<close>

datatype cls = Cls (cid: nat) (cdict: "cfgval dict") (cbases: "cls list")

definition in_tail :: "cls \<Rightarrow> cls list \<Rightarrow> bool" where
  "in_tail c s = List.member (map cid (tl s)) (cid c)"

definition good_head :: "cls list list \<Rightarrow> cls \<Rightarrow> bool" where
  "good_head ss c = list_all (\<lambda>s. \<not> in_tail c s) ss"

definition drop_head :: "cls \<Rightarrow> cls list \<Rightarrow> cls list" where
  "drop_head c s = (case s of [] \<Rightarrow> [] | x # xs \<Rightarrow> if cid x = cid c then xs else s)"

lemma length_drop_head: "length (drop_head c s) \<le> length s"
  by (simp add: drop_head_def split: list.splits)

lemma length_drop_head_less:
  "s \<noteq> [] \<Longrightarrow> cid (hd s) = cid c \<Longrightarrow> length (drop_head c s) < length s"
  by (cases s) (simp_all add: drop_head_def)

lemma sum_drop_head_le:
  "sum_list (map (\<lambda>s. length (drop_head c s)) ss) \<le> sum_list (map length ss)"
  by (induction ss) (simp_all add: add_mono length_drop_head)

lemma sum_drop_head_less:
  assumes "s \<in> set ss" and "s \<noteq> []" and "cid (hd s) = cid c"
  shows "sum_list (map (\<lambda>s. length (drop_head c s)) ss) < sum_list (map length ss)"
  using assms
proof (induction ss)
  case Nil
  then show ?case by simp
next
  case (Cons t ts)
  show ?case
  proof (cases "t = s")
    case True
    with Cons.prems have "length (drop_head c t) < length t"
      by (simp add: length_drop_head_less)
    with sum_drop_head_le [of c ts] show ?thesis by simp
  next
    case False
    with Cons have "sum_list (map (\<lambda>s. length (drop_head c s)) ts) < sum_list (map length ts)"
      by simp
    with length_drop_head [of c t] show ?thesis by simp
  qed
qed

lemma sum_filter_nonempty:
  "sum_list (map length (filter (\<lambda>s. s \<noteq> []) seqs)) = sum_list (map length seqs)"
  by (induction seqs) simp_all

text \<open>
  The C3 merge that Python uses to linearise a class with several bases: take the first
  head that is in no tail, remove it from every sequence, repeat; no such head is the
  \<open>TypeError\<close> "Cannot create a consistent method resolution order".
\<close>

function c3_merge :: "cls list list \<Rightarrow> cls list option" where
  "c3_merge seqs =
     (let ss = filter (\<lambda>s. s \<noteq> []) seqs in
      if ss = [] then Some []
      else (case find (good_head ss) (map hd ss) of
              None \<Rightarrow> None
            | Some c \<Rightarrow> map_option ((#) c) (c3_merge (map (drop_head c) ss))))"
  by pat_completeness auto

termination
proof (relation "measure (\<lambda>seqs. sum_list (map length seqs))", goal_cases)
  case 1
  show ?case by simp
next
  case (2 seqs ss c)
  from 2(3) have "c \<in> set (map hd ss)"
    by (auto simp: find_Some_iff)
  then obtain s where s: "s \<in> set ss" "hd s = c" by auto
  with 2(1) have "s \<noteq> []" by auto
  with s have "sum_list (map (\<lambda>s. length (drop_head c s)) ss) < sum_list (map length ss)"
    using sum_drop_head_less [of s ss c] by simp
  with 2(1) show ?case
    by (simp add: sum_filter_nonempty comp_def)
qed

declare c3_merge.simps [simp del]

fun mro :: "cls \<Rightarrow> cls list option" where
  "mro (Cls i d bs) =
     (case those (map mro bs) of
        None \<Rightarrow> None
      | Some ls \<Rightarrow> map_option ((#) (Cls i d bs)) (c3_merge (ls @ [bs])))"

text \<open>Attribute lookup on a class: the first class of the resolution order that has it.\<close>

fun lookup_mro :: "cls list \<Rightarrow> string \<Rightarrow> cfgval option" where
  "lookup_mro [] k = None"
| "lookup_mro (c # cs) k =
     (case map_of (cdict c) k of Some v \<Rightarrow> Some v | None \<Rightarrow> lookup_mro cs k)"

definition py_getattr :: "cls \<Rightarrow> string \<Rightarrow> exn + cfgval" where
  "py_getattr c k = (case mro c of
      None \<Rightarrow> Inl (TypeError ''Cannot create a consistent method resolution order (MRO)'')
    | Some l \<Rightarrow> (case lookup_mro l k of
                  None \<Rightarrow> Inl (AttributeError k)
                | Some v \<Rightarrow> Inr v))"

text \<open>\<open>type("Config", bases, {})\<close>: a new class, of identity \<open>n\<close>, when the bases linearise.\<close>

definition py_type :: "nat \<Rightarrow> cls list \<Rightarrow> exn + cls" where
  "py_type n bases = (case mro (Cls n [] bases) of
      None \<Rightarrow> Inl (TypeError ''Cannot create a consistent method resolution order (MRO)'')
    | Some _ \<Rightarrow> Inr (Cls n [] bases))"

definition BaseConfig :: cls where
  "BaseConfig = Cls 0 [] []"

definition inherit_config :: "nat \<Rightarrow> cls \<Rightarrow> cls \<Rightarrow> exn + cls" where
  "inherit_config n self_config parent_config =
     (let base_classes = (if cid self_config = cid parent_config then [self_config]
                          else [self_config, parent_config])
      in py_type n base_classes)"

text \<open>
  A base of a form class, as \<open>FormMetaclass.__new__\<close> tells them apart: \<open>BaseForm\<close>
  itself, a proper subclass of it (with its \<open>__config__\<close>), or any other class.
  \<open>inherit_bases\<close> is the loop over \<open>reversed(bases)\<close>; the counter supplies the
  identities of the classes \<open>type\<close> creates.
\<close>

datatype base = BaseFormBase | FormBase cls | OtherBase

fun inherit_bases :: "bool \<Rightarrow> base list \<Rightarrow> cls \<Rightarrow> nat \<Rightarrow> exn + (cls \<times> nat)" where
  "inherit_bases defined [] config n = Inr (config, n)"
| "inherit_bases defined (FormBase bc # bs) config n =
     (if defined then
        (case inherit_config n bc config of
           Inl e \<Rightarrow> Inl e
         | Inr c \<Rightarrow> inherit_bases defined bs c (Suc n))
      else inherit_bases defined bs config n)"
| "inherit_bases defined (b # bs) config n = inherit_bases defined bs config n"

definition FormMetaclass_new ::
  "bool \<Rightarrow> nat \<Rightarrow> base list \<Rightarrow> cls option \<Rightarrow> exn + (cls \<times> nat)" where
  "FormMetaclass_new is_base_form_class_defined n bases config_from_namespace =
     (case inherit_bases is_base_form_class_defined (rev bases) BaseConfig n of
        Inl e \<Rightarrow> Inl e
      | Inr (config, n') \<Rightarrow>
          (case config_from_namespace of
             None \<Rightarrow> Inr (config, n')
           | Some c \<Rightarrow> (case inherit_config n' c config of
                          Inl e \<Rightarrow> Inl e
                        | Inr config' \<Rightarrow> Inr (config', Suc n'))))"

text \<open>The configuration attributes the form code reads, each at its declared type.\<close>

definition cfg_model :: "cls \<Rightarrow> exn + model_class" where
  "cfg_model c = (case py_getattr c ''model'' of
      Inl e \<Rightarrow> Inl e
    | Inr (CModel m) \<Rightarrow> Inr m
    | Inr _ \<Rightarrow> Inl (Unmodelled ''model''))"

definition cfg_widget_classes :: "cls \<Rightarrow> exn + widget_class dict" where
  "cfg_widget_classes c = (case py_getattr c ''widget_classes'' of
      Inl e \<Rightarrow> Inl e
    | Inr (CWidgetClasses m) \<Rightarrow> Inr m
    | Inr _ \<Rightarrow> Inl (Unmodelled ''widget_classes''))"

definition cfg_widget_kwargs :: "cls \<Rightarrow> exn + pyval dict dict" where
  "cfg_widget_kwargs c = (case py_getattr c ''widget_kwargs'' of
      Inl e \<Rightarrow> Inl e
    | Inr (CWidgetKwargs m) \<Rightarrow> Inr m
    | Inr _ \<Rightarrow> Inl (Unmodelled ''widget_kwargs''))"

definition cfg_prefix :: "cls \<Rightarrow> exn + string" where
  "cfg_prefix c = (case py_getattr c ''prefix'' of
      Inl e \<Rightarrow> Inl e
    | Inr (CVal v) \<Rightarrow> Inr (py_str v)
    | Inr _ \<Rightarrow> Inl (Unmodelled ''prefix''))"

section \<open>BaseForm: the validation state machine\<close>

text \<open>
  A \<open>BoundField\<close> object: its field and the slot \<open>cached_property\<close> fills with the widget.
  Its form is the one form whose state holds it.
\<close>

record BoundField =
  bf_field :: ModelField
  bf_widget :: "widget option"

text \<open>
  The state of one form instance: \<open>config\<close> is its class's \<open>__config__\<close>; \<open>f_data\<close>,
  \<open>f_error\<close>, \<open>f_model\<close>, \<open>f_initial\<close> and \<open>f_model_data\<close> are the attributes \<open>_data\<close>,
  \<open>_error\<close>, \<open>_model\<close>, \<open>_initial\<close> and \<open>_model_data\<close>; \<open>bind_cache\<close> is this
  instance's part of the cache \<open>functools.cache\<close> keeps for \<open>bind_field\<close>, from field name to
  the address of the \<open>BoundField\<close>; \<open>heap\<close> holds the \<open>BoundField\<close> objects, an address
  being an index.
\<close>

record form =
  config :: cls
  f_data :: "pyval dict option"
  f_error :: "raw_error list option"
  f_model :: "model_inst option"
  f_initial :: "model_inst option"
  f_model_data :: "pyval dict"
  bind_cache :: "nat dict"
  heap :: "BoundField list"

definition get_model_class :: "form \<Rightarrow> exn + model_class" where
  "get_model_class s = cfg_model (config s)"

text \<open>
  \<open>get_model_data\<close>: the fields of the validated model when there is one, else those of
  the initial value overlaid by the raw data. The test \<open>if self._initial\<close> is the test
  for \<open>None\<close>: an instance of a pydantic model is always true.
\<close>

definition get_model_data :: "form \<Rightarrow> pyval dict" where
  "get_model_data s = (case f_model s of
      Some m \<Rightarrow> inst_dict m
    | None \<Rightarrow>
        (let data = [];
             data = (case f_initial s of Some i \<Rightarrow> dict_update data (inst_dict i) | None \<Rightarrow> data);
             data = (case f_data s of Some d \<Rightarrow> dict_update data d | None \<Rightarrow> data)
         in data))"

definition process_data :: "form \<Rightarrow> pyval dict \<Rightarrow> pyval dict" where
  "process_data s data = data"

text \<open>\<open>BaseForm.__init__\<close>: the form, or the \<open>ValueError\<close> for an initial value of another type.\<close>

definition BaseForm_init :: "cls \<Rightarrow> pyval dict option \<Rightarrow> model_inst option \<Rightarrow> exn + form" where
  "BaseForm_init cfg data initial =
     (let s = \<lparr> config = cfg, f_data = data, f_error = None, f_model = None,
                f_initial = None, f_model_data = [], bind_cache = [], heap = [] \<rparr>;
          built = (let s = s\<lparr> f_initial := initial \<rparr> in s\<lparr> f_model_data := get_model_data s \<rparr>)
      in case initial of
           None \<Rightarrow> Inr built
         | Some i \<Rightarrow> (case cfg_model cfg of
                        Inl e \<Rightarrow> Inl e
                      | Inr m \<Rightarrow> if \<not> isinstance i m
                                 then Inl (ValueError ''Initial must be of type Config.model'')
                                 else Inr built))"

text \<open>
  \<open>clean\<close> returns normally (\<open>Inr ()\<close>) or raises, and gives the state it leaves. Only a
  \<open>ValidationError\<close> of the model constructor is stored; any other exception passes
  through and leaves the form as it was.
\<close>

definition clean :: "form \<Rightarrow> (exn + unit) \<times> form" where
  "clean s = (case f_error s of
      Some e \<Rightarrow> (Inl (ValidationError e), s)
    | None \<Rightarrow> (case f_model s of
        Some m \<Rightarrow> (Inr (), s)
      | None \<Rightarrow>
          (let data = process_data s (get_model_data s) in
           case get_model_class s of
             Inl e \<Rightarrow> (Inl e, s)
           | Inr model_class \<Rightarrow> (case model_new model_class data of
               Inl (ValidationError ex) \<Rightarrow> (Inl (ValidationError ex), s\<lparr> f_error := Some ex \<rparr>)
             | Inl e \<Rightarrow> (Inl e, s)
             | Inr m \<Rightarrow> (let s = s\<lparr> f_model := Some m \<rparr>
                         in (Inr (), s\<lparr> f_model_data := get_model_data s \<rparr>))))))"

text \<open>The property \<open>data\<close>: \<open>self._model\<close> after \<open>clean\<close>.\<close>

definition data :: "form \<Rightarrow> (exn + model_inst option) \<times> form" where
  "data s = (case clean s of
      (Inl e, s') \<Rightarrow> (Inl e, s')
    | (Inr _, s') \<Rightarrow> (Inr (f_model s'), s'))"

text \<open>
  The loop of \<open>errors\<close> over \<open>raw_errors\<close>: the two assertions, the unpacking
  \<open>(field,) = exc.loc_tuple()\<close> (a \<open>ValueError\<close> unless the location has one component) and
  \<open>errors.setdefault(field, []).append(exc.exc)\<close>.
\<close>

definition setdefault_append ::
  "(loc_item \<times> pyexc list) list \<Rightarrow> loc_item \<Rightarrow> pyexc \<Rightarrow> (loc_item \<times> pyexc list) list" where
  "setdefault_append d k v = (case map_of d k of
      None \<Rightarrow> d @ [(k, [v])]
    | Some vs \<Rightarrow> AList.update k (vs @ [v]) d)"

fun errors_loop ::
  "raw_error list \<Rightarrow> (loc_item \<times> pyexc list) list \<Rightarrow> exn + (loc_item \<times> pyexc list) list" where
  "errors_loop [] errors = Inr errors"
| "errors_loop (ErrorList _ # _) errors = Inl AssertionError"
| "errors_loop (ErrorWrapper exc loc # rest) errors =
     (if exc_cls exc \<noteq> PydanticValueError then Inl AssertionError
      else (case loc of
              [field] \<Rightarrow> errors_loop rest (setdefault_append errors field exc)
            | _ \<Rightarrow> Inl (ValueError ''unpack'')))"

definition errors :: "form \<Rightarrow> (exn + (loc_item \<times> pyexc list) list option) \<times> form" where
  "errors s = (case clean s of
      (Inr _, s') \<Rightarrow> (Inr None, s')
    | (Inl (ValidationError _), s') \<Rightarrow>
        (case f_error s' of
           None \<Rightarrow> (Inl (AttributeError ''raw_errors''), s')
         | Some raw_errors \<Rightarrow> (case errors_loop raw_errors [] of
                                Inl e \<Rightarrow> (Inl e, s')
                              | Inr es \<Rightarrow> (Inr (Some es), s')))
    | (Inl e, s') \<Rightarrow> (Inl e, s'))"

definition is_valid :: "form \<Rightarrow> (exn + bool) \<times> form" where
  "is_valid s = (case clean s of
      (Inr _, s') \<Rightarrow> (Inr True, s')
    | (Inl (ValidationError _), s') \<Rightarrow> (Inr False, s')
    | (Inl e, s') \<Rightarrow> (Inl e, s'))"

text \<open>
  \<open>value_of\<close>: Python evaluates the default argument of \<open>dict.get\<close> first, so a name that
  is no field of the schema is a \<open>KeyError\<close> whatever the data holds.
\<close>

definition value_of :: "form \<Rightarrow> string \<Rightarrow> exn + pyval" where
  "value_of s field = (case cfg_model (config s) of
      Inl e \<Rightarrow> Inl e
    | Inr m \<Rightarrow> (case map_of (model_fields m) field of
        None \<Rightarrow> Inl (KeyError field)
      | Some f \<Rightarrow> Inr (case map_of (f_model_data s) field of
                        Some v \<Rightarrow> v
                      | None \<Rightarrow> field_default f)))"

section \<open>Widget classes\<close>

text \<open>
  The pydantic fields of each widget class, in field order: name, alias, declared type
  and default (\<open>None\<close> for the required \<open>name\<close>). \<open>Input\<close> adds \<open>type\<close> and \<open>list\<close>,
  \<open>Number\<close> adds \<open>min\<close>, \<open>max\<close> and \<open>step\<close>, \<open>StrftimeMixin\<close> adds \<open>format\<close>.
\<close>

datatype field_kind = StrField | OptStrField | BoolField | AnyField

type_synonym wfield = "string \<times> string \<times> field_kind \<times> pyval option"

definition Widget_fields :: "wfield list" where
  "Widget_fields =
     [(''name'', ''name'', StrField, None),
      (''id'', ''id'', OptStrField, Some VNone),
      (''value'', ''value'', AnyField, Some VNone),
      (''required'', ''required'', BoolField, Some (VBool False)),
      (''class_'', ''class'', OptStrField, Some VNone),
      (''autofocus'', ''autofocus'', BoolField, Some (VBool False)),
      (''autocomplete'', ''autocomplete'', OptStrField, Some VNone),
      (''placeholder'', ''placeholder'', OptStrField, Some VNone)]"

definition Input_fields :: "string \<Rightarrow> wfield list" where
  "Input_fields type =
     Widget_fields @
     [(''type'', ''type'', StrField, Some (VStr type)),
      (''list'', ''list'', OptStrField, Some VNone)]"

definition Number_fields :: "wfield list" where
  "Number_fields =
     Input_fields ''number'' @
     [(''min'', ''min'', OptStrField, Some VNone),
      (''max'', ''max'', OptStrField, Some VNone),
      (''step'', ''step'', OptStrField, Some VNone)]"

definition Strftime_fields :: "string \<Rightarrow> wfield list" where
  "Strftime_fields format =
     Input_fields ''date'' @ [(''format'', ''format'', StrField, Some (VStr format))]"

fun widget_fields :: "widget_class \<Rightarrow> wfield list" where
  "widget_fields Widget = Widget_fields"
| "widget_fields Input = Input_fields ''text''"
| "widget_fields String = Input_fields ''text''"
| "widget_fields Password = Input_fields ''password''"
| "widget_fields Number = Number_fields"
| "widget_fields Date = Strftime_fields ''%Y-%m-%d''"
| "widget_fields Time = Strftime_fields ''%H:%M:%S''"
| "widget_fields DateTime = Strftime_fields ''%Y-%m-%dT%H{%M:%S''"
| "widget_fields Checkbox = Input_fields ''checkbox''"

text \<open>\<open>__exclude_attrs__\<close> as \<open>WidgetMetaclass\<close> collects it over the bases.\<close>

fun exclude_attrs :: "widget_class \<Rightarrow> string list" where
  "exclude_attrs Date = [''class_'', ''value'', ''format'']"
| "exclude_attrs Time = [''class_'', ''value'', ''format'']"
| "exclude_attrs DateTime = [''class_'', ''value'', ''format'']"
| "exclude_attrs c = [''class_'', ''value'']"

text \<open>
  What pydantic does with the value given for a field: \<open>None\<close> passes where the field is
  optional, a \<open>str\<close> field takes a string as it is and the text of a number, a \<open>bool\<close>
  field takes a boolean and the numbers and words that stand for one.
\<close>

definition lower :: "string \<Rightarrow> string" where
  "lower s = map (\<lambda>c. case map_of (zip ''ABCDEFGHIJKLMNOPQRSTUVWXYZ''
                                         ''abcdefghijklmnopqrstuvwxyz'') c of
                         None \<Rightarrow> c | Some l \<Rightarrow> l) s"

definition str_validator :: "pyval \<Rightarrow> pyexc + pyval" where
  "str_validator v = (case v of
      VStr s \<Rightarrow> Inr (VStr s)
    | VInt i \<Rightarrow> Inr (VStr (py_str v))
    | VFloat f \<Rightarrow> Inr (VStr (py_str v))
    | VBool b \<Rightarrow> Inr (VStr (py_str v))
    | _ \<Rightarrow> Inl (Exc PydanticTypeError ''str type expected''))"

definition bool_validator :: "pyval \<Rightarrow> pyexc + pyval" where
  "bool_validator v =
     (let bad = Inl (Exc PydanticTypeError ''value could not be parsed to a boolean'');
          yes = Inr (VBool True); no = Inr (VBool False)
      in case v of
           VBool b \<Rightarrow> Inr (VBool b)
         | VInt i \<Rightarrow> if i = 1 then yes else if i = 0 then no else bad
         | VFloat f \<Rightarrow> if f = ''1.0'' then yes
                       else if f = ''0.0'' \<or> f = ''-0.0'' then no else bad
         | VStr s \<Rightarrow>
             if List.member [''1'', ''on'', ''t'', ''true'', ''y'', ''yes''] (lower s) then yes
             else if List.member [''0'', ''off'', ''f'', ''false'', ''n'', ''no''] (lower s) then no
             else bad
         | _ \<Rightarrow> bad)"

definition validate_field :: "field_kind \<Rightarrow> pyval \<Rightarrow> pyexc + pyval" where
  "validate_field k v =
     (let none_bad = Inl (Exc PydanticTypeError ''none is not an allowed value'')
      in case k of
           AnyField \<Rightarrow> Inr v
         | OptStrField \<Rightarrow> if v = VNone then Inr VNone else str_validator v
         | StrField \<Rightarrow> if v = VNone then none_bad else str_validator v
         | BoolField \<Rightarrow> if v = VNone then none_bad else bool_validator v)"

definition populate :: "pyval dict \<Rightarrow> wfield \<Rightarrow> raw_error + (string \<times> pyval)" where
  "populate kwargs f = (case f of (name, alias, kind, dflt) \<Rightarrow>
     (case map_of kwargs alias of
        None \<Rightarrow> (case dflt of
                   None \<Rightarrow> Inl (ErrorWrapper (Exc PydanticValueError ''field required'')
                                  [LocStr alias])
                 | Some d \<Rightarrow> Inr (name, d))
      | Some v \<Rightarrow> (case validate_field kind v of
                     Inl e \<Rightarrow> Inl (ErrorWrapper e [LocStr alias])
                   | Inr v' \<Rightarrow> Inr (name, v'))))"

fun lefts :: "('a + 'b) list \<Rightarrow> 'a list" where
  "lefts [] = []"
| "lefts (Inl a # xs) = a # lefts xs"
| "lefts (Inr b # xs) = lefts xs"

fun rights :: "('a + 'b) list \<Rightarrow> 'b list" where
  "rights [] = []"
| "rights (Inl a # xs) = rights xs"
| "rights (Inr b # xs) = b # rights xs"

text \<open>\<open>widget_class(**kwargs)\<close>: keys that are no field of the class are ignored.\<close>

definition widget_new :: "widget_class \<Rightarrow> pyval dict \<Rightarrow> exn + widget" where
  "widget_new c kwargs =
     (let rs = map (populate kwargs) (widget_fields c)
      in if lefts rs = [] then Inr \<lparr> widget_cls = c, widget_dict = rights rs \<rparr>
         else Inl (ValidationError (lefts rs)))"

text \<open>Reading a field of a widget (\<open>self.value\<close>, \<open>self.class_\<close>).\<close>

definition wget :: "widget \<Rightarrow> string \<Rightarrow> pyval" where
  "wget w k = (case map_of (widget_dict w) k of Some v \<Rightarrow> v | None \<Rightarrow> VNone)"

subsection \<open>\<open>additional_kwargs\<close>\<close>

definition Widget_additional_kwargs :: "ModelField \<Rightarrow> pyval dict" where
  "Widget_additional_kwargs field = []"

definition Number_additional_kwargs :: "ModelField \<Rightarrow> pyval dict" where
  "Number_additional_kwargs field =
     (let kwargs = Widget_additional_kwargs field;
          ge = getattr_type (field_type field) ''ge'';
          kwargs = (if ge \<noteq> VNone then AList.update ''min'' (VStr (py_str ge)) kwargs
                    else kwargs);
          le = getattr_type (field_type field) ''le'';
          kwargs = (if le \<noteq> VNone then AList.update ''max'' (VStr (py_str le)) kwargs
                    else kwargs)
      in kwargs)"

definition additional_kwargs :: "widget_class \<Rightarrow> ModelField \<Rightarrow> pyval dict" where
  "additional_kwargs c field =
     (if c = Number then Number_additional_kwargs field else Widget_additional_kwargs field)"

subsection \<open>\<open>format_value\<close>\<close>

text \<open>
  \<open>strftime\<close> of a date, time or datetime: the format must be a \<open>str\<close>; the directives
  the widgets use are expanded, any other is left as it is. A date has time 00:00:00, a
  time has date 1900-01-01.
\<close>

fun has_strftime :: "pyval \<Rightarrow> bool" where
  "has_strftime (VDate y m d) = True"
| "has_strftime (VTime h mi s) = True"
| "has_strftime (VDateTime y m d h mi s) = True"
| "has_strftime v = False"

fun components :: "pyval \<Rightarrow> nat \<times> nat \<times> nat \<times> nat \<times> nat \<times> nat" where
  "components (VDate y m d) = (y, m, d, 0, 0, 0)"
| "components (VTime h mi s) = (1900, 1, 1, h, mi, s)"
| "components (VDateTime y m d h mi s) = (y, m, d, h, mi, s)"
| "components v = (0, 0, 0, 0, 0, 0)"

definition directive :: "char \<Rightarrow> pyval \<Rightarrow> string" where
  "directive c v = (case components v of (y, m, d, h, mi, s) \<Rightarrow>
     if c = CHR ''Y'' then zpad 4 y
     else if c = CHR ''m'' then zpad 2 m
     else if c = CHR ''d'' then zpad 2 d
     else if c = CHR ''H'' then zpad 2 h
     else if c = CHR ''M'' then zpad 2 mi
     else if c = CHR ''S'' then zpad 2 s
     else if c = CHR ''%'' then ''%''
     else [CHR ''%'', c])"

fun strftime_expand :: "string \<Rightarrow> pyval \<Rightarrow> string" where
  "strftime_expand [] v = []"
| "strftime_expand [c] v = [c]"
| "strftime_expand (c # d # rest) v =
     (if c = CHR ''%'' then directive d v @ strftime_expand rest v
      else c # strftime_expand (d # rest) v)"

definition strftime :: "pyval \<Rightarrow> pyval \<Rightarrow> exn + string" where
  "strftime v fmt =
     (if \<not> has_strftime v then Inl (AttributeError ''strftime'')
      else (case fmt of
              VStr f \<Rightarrow> Inr (strftime_expand f v)
            | _ \<Rightarrow> Inl (TypeError ''strftime() argument 1 must be str'')))"

definition Widget_format_value :: "widget \<Rightarrow> pyval \<Rightarrow> exn + string" where
  "Widget_format_value self v = (if v = VNone then Inr [] else Inr (py_str v))"

definition Password_format_value :: "widget \<Rightarrow> pyval \<Rightarrow> exn + string" where
  "Password_format_value self v =
     (if v = VNone then Inr []
      else (case v of
              VSecretStr s \<Rightarrow> Inr s
            | _ \<Rightarrow> Inl (AttributeError ''get_secret_value'')))"

text \<open>
  \<open>StrftimeMixin.format_value\<close> calls \<open>self.value.strftime(format)\<close>. In a method body the
  name \<open>format\<close> is not the field \<open>self.format\<close>: no local or global of that name exists, so
  it is the builtin function \<open>format\<close>.
\<close>

definition StrftimeMixin_format_value :: "widget \<Rightarrow> pyval \<Rightarrow> exn + string" where
  "StrftimeMixin_format_value self v =
     (if v = VNone then Inr []
      else strftime (wget self ''value'') (VBuiltin ''format''))"

definition format_value :: "widget \<Rightarrow> pyval \<Rightarrow> exn + string" where
  "format_value self v =
     (if widget_cls self = Password then Password_format_value self v
      else if List.member [Date, Time, DateTime] (widget_cls self)
      then StrftimeMixin_format_value self v
      else Widget_format_value self v)"

subsection \<open>\<open>attrs\<close> and the string renderer\<close>

definition Widget_attrs :: "widget \<Rightarrow> exn + pyval dict" where
  "Widget_attrs self =
     (let kept = filter (\<lambda>kv. \<not> List.member (exclude_attrs (widget_cls self)) (fst kv))
                        (widget_dict self)
      in case format_value self (wget self ''value'') of
           Inl e \<Rightarrow> Inl e
         | Inr text \<Rightarrow>
             Inr (dict_update kept [(''class'', wget self ''class_''), (''value'', VStr text)]))"

definition Checkbox_attrs :: "widget \<Rightarrow> exn + pyval dict" where
  "Checkbox_attrs self = (case Widget_attrs self of
      Inl e \<Rightarrow> Inl e
    | Inr attrs \<Rightarrow> Inr (AList.update ''checked'' (wget self ''value'')
                         (AList.delete ''value'' attrs)))"

definition attrs :: "widget \<Rightarrow> exn + pyval dict" where
  "attrs self = (if widget_cls self = Checkbox then Checkbox_attrs self else Widget_attrs self)"

fun join :: "string \<Rightarrow> string list \<Rightarrow> string" where
  "join sep [] = []"
| "join sep [x] = x"
| "join sep (x # y # ys) = x @ sep @ join sep (y # ys)"

definition quoted :: "string \<Rightarrow> string" where
  "quoted s = CHR 0x22 # s @ [CHR 0x22]"

text \<open>
  \<open>StringRenderer.render_attrs\<close> joins one item for each attribute of \<open>widget.attrs()\<close>
  whose value is neither \<open>None\<close> nor \<open>False\<close>: \<open>emitted\<close> is that selection, the
  attributes that reach the markup.
\<close>

definition emitted :: "pyval dict \<Rightarrow> pyval dict" where
  "emitted kvs = filter (\<lambda>kv. snd kv \<noteq> VNone \<and> snd kv \<noteq> VBool False) kvs"

definition render_attrs :: "widget \<Rightarrow> exn + string" where
  "render_attrs w = (case attrs w of
      Inl e \<Rightarrow> Inl e
    | Inr kvs \<Rightarrow>
        Inr (join '' ''
              (map (\<lambda>kv. if snd kv = VBool True then fst kv
                         else fst kv @ ''='' @ quoted (py_str (snd kv)))
                   (emitted kvs))))"

definition render_widget :: "renderer \<Rightarrow> widget \<Rightarrow> exn + string" where
  "render_widget r w = (case r of
      BaseRenderer \<Rightarrow> Inl NotImplementedError
    | StringRenderer \<Rightarrow> (case render_attrs w of
                           Inl e \<Rightarrow> Inl e
                         | Inr text \<Rightarrow> Inr (''<input '' @ text @ ''>'')))"

section \<open>BoundField and Form\<close>

definition prefix_name :: "form \<Rightarrow> string \<Rightarrow> exn + string" where
  "prefix_name s name = (case cfg_prefix (config s) of
      Inl e \<Rightarrow> Inl e
    | Inr prefix \<Rightarrow> Inr (prefix @ name))"

definition BoundField_required :: "BoundField \<Rightarrow> bool" where
  "BoundField_required self = field_required (bf_field self)"

definition BoundField_value :: "form \<Rightarrow> BoundField \<Rightarrow> exn + pyval" where
  "BoundField_value s self = value_of s (field_name (bf_field self))"

text \<open>
  \<open>BoundField.widget_class\<close>: the override of the configuration, else the chain of
  \<open>issubclass\<close> and \<open>==\<close> tests on \<open>field.type_\<close>, in the order of the source.
\<close>

definition widget_class :: "form \<Rightarrow> BoundField \<Rightarrow> exn + widget_class" where
  "widget_class s self =
     (let t = field_type (bf_field self) in
      case cfg_widget_classes (config s) of
        Inl e \<Rightarrow> Inl e
      | Inr widget_classes \<Rightarrow>
         (case map_of widget_classes (field_name (bf_field self)) of
            Some c \<Rightarrow> Inr c
          | None \<Rightarrow>
             (case issubclass t [''bool''] of
                Inl e \<Rightarrow> Inl e
              | Inr True \<Rightarrow> Inr Checkbox
              | Inr False \<Rightarrow>
                 (case issubclass t [''int'', ''float''] of
                    Inl e \<Rightarrow> Inl e
                  | Inr True \<Rightarrow> Inr Number
                  | Inr False \<Rightarrow>
                      if type_is t ''date'' then Inr Date
                      else if type_is t ''time'' then Inr Time
                      else if type_is t ''datetime'' then Inr DateTime
                      else (case issubclass t [''SecretStr''] of
                              Inl e \<Rightarrow> Inl e
                            | Inr True \<Rightarrow> Inr Password
                            | Inr False \<Rightarrow> Inr Input)))))"

definition widget_kwargs :: "form \<Rightarrow> BoundField \<Rightarrow> widget_class \<Rightarrow> exn + pyval dict" where
  "widget_kwargs s self wc =
     (let fname = field_name (bf_field self) in
      case prefix_name s fname of
        Inl e \<Rightarrow> Inl e
      | Inr name \<Rightarrow>
         (case BoundField_value s self of
            Inl e \<Rightarrow> Inl e
          | Inr v \<Rightarrow>
             (let kwargs = [(''name'', VStr name), (''id'', VStr (''id_'' @ name)),
                            (''required'', VBool (BoundField_required self)), (''value'', v)];
                  kwargs = dict_update kwargs (additional_kwargs wc (bf_field self))
              in case cfg_widget_kwargs (config s) of
                   Inl e \<Rightarrow> Inl e
                 | Inr wk \<Rightarrow>
                     Inr (dict_update kwargs
                            (case map_of wk fname of None \<Rightarrow> [] | Some extra \<Rightarrow> extra)))))"

text \<open>What the property \<open>widget\<close> computes when nothing is cached yet.\<close>

definition make_widget :: "form \<Rightarrow> BoundField \<Rightarrow> exn + widget" where
  "make_widget s self = (case widget_class s self of
      Inl e \<Rightarrow> Inl e
    | Inr wc \<Rightarrow> (case widget_kwargs s self wc of
                  Inl e \<Rightarrow> Inl e
                | Inr kwargs \<Rightarrow> widget_new wc kwargs))"

text \<open>
  The \<open>cached_property\<close> \<open>widget\<close> of the \<open>BoundField\<close> at address \<open>r\<close>: the stored widget,
  or the computed one, which is then stored in the object.
\<close>

definition BoundField_widget :: "form \<Rightarrow> nat \<Rightarrow> (exn + widget) \<times> form" where
  "BoundField_widget s r =
     (if \<not> r < length (heap s) then (Inl (Unmodelled ''no such object''), s)
      else (let self = heap s ! r in
            case bf_widget self of
              Some w \<Rightarrow> (Inr w, s)
            | None \<Rightarrow> (case make_widget s self of
                         Inl e \<Rightarrow> (Inl e, s)
                       | Inr w \<Rightarrow>
                           (Inr w, s\<lparr> heap := (heap s)[r := self\<lparr> bf_widget := Some w \<rparr>] \<rparr>))))"

text \<open>
  \<open>Form.bind_field\<close> under \<open>functools.cache\<close>: a hit returns the cached object and runs
  nothing; a miss runs the body and stores its result, unless the body raises.
\<close>

definition bind_field :: "form \<Rightarrow> string \<Rightarrow> (exn + nat) \<times> form" where
  "bind_field s name = (case map_of (bind_cache s) name of
      Some r \<Rightarrow> (Inr r, s)
    | None \<Rightarrow> (case clean s of
        (Inl e, s') \<Rightarrow> (Inl e, s')
      | (Inr _, s') \<Rightarrow> (case cfg_model (config s') of
          Inl e \<Rightarrow> (Inl e, s')
        | Inr m \<Rightarrow> (case map_of (model_fields m) name of
            None \<Rightarrow> (Inl (KeyError name), s')
          | Some field \<Rightarrow>
              (let r = length (heap s')
               in (Inr r, s'\<lparr> heap := heap s' @ [\<lparr> bf_field = field, bf_widget = None \<rparr>],
                              bind_cache := AList.update name r (bind_cache s') \<rparr>))))))"

text \<open>The caller changes the raw data it passed in (the form keeps a reference to it).\<close>

definition set_data :: "form \<Rightarrow> pyval dict option \<Rightarrow> form" where
  "set_data s d = s\<lparr> f_data := d \<rparr>"

text \<open>The calls a client can make on a form, and the state each leaves.\<close>

datatype call =
    CallClean | CallData | CallErrors | CallIsValid
  | CallBindField string | CallWidget nat | CallSetData "pyval dict option"

fun step :: "form \<Rightarrow> call \<Rightarrow> form" where
  "step s CallClean = snd (clean s)"
| "step s CallData = snd (data s)"
| "step s CallErrors = snd (errors s)"
| "step s CallIsValid = snd (is_valid s)"
| "step s (CallBindField name) = snd (bind_field s name)"
| "step s (CallWidget r) = snd (BoundField_widget s r)"
| "step s (CallSetData d) = set_data s d"

definition steps :: "form \<Rightarrow> call list \<Rightarrow> form" where
  "steps s cs = foldl step s cs"

section \<open>The configuration of \<open>Form\<close> and an example form\<close>

text \<open>
  The class \<open>Config\<close> in the body of \<open>Form\<close>, and \<open>Form.__config__\<close> as the metaclass
  builds it (\<open>Form_config_new\<close> below).
\<close>

definition Form_Config :: cls where
  "Form_Config =
     Cls 1 [(''prefix'', CVal (VStr [])), (''renderer'', CRenderer StringRenderer),
            (''widget_classes'', CWidgetClasses []), (''widget_kwargs'', CWidgetKwargs [])]
         [BaseConfig]"

definition Form_config :: cls where
  "Form_config = Cls 2 [] [Form_Config, BaseConfig]"

text \<open>
  The schema of the examples: \<open>name: str\<close>, \<open>age: conint(ge=0, le=120) = 18\<close>,
  \<open>active: bool = False\<close>, \<open>visits: int = 0\<close>, with a constructor that checks what pydantic would: a missing
  or out-of-range value is a \<open>PydanticValueError\<close>, a value of the wrong type a
  \<open>PydanticTypeError\<close>.
\<close>

definition py_str_t :: pytype where
  "py_str_t = PyClass ''str'' [''str'', ''object''] []"

definition py_int_t :: pytype where
  "py_int_t = PyClass ''int'' [''int'', ''object''] []"

definition py_bool_t :: pytype where
  "py_bool_t = PyClass ''bool'' [''bool'', ''int'', ''object''] []"

definition conint :: "pyval \<Rightarrow> pyval \<Rightarrow> pytype" where
  "conint ge le =
     PyClass ''ConstrainedIntValue''
       [''ConstrainedIntValue'', ''ConstrainedInt'', ''int'', ''object'']
       [(''ge'', ge), (''le'', le)]"

definition name_field :: ModelField where
  "name_field = \<lparr> field_name = ''name'', field_type = py_str_t,
                   field_required = True, field_default = VNone \<rparr>"

definition age_field :: ModelField where
  "age_field = \<lparr> field_name = ''age'', field_type = conint (VInt 0) (VInt 120),
                  field_required = False, field_default = VInt 18 \<rparr>"

definition active_field :: ModelField where
  "active_field = \<lparr> field_name = ''active'', field_type = py_bool_t,
                     field_required = False, field_default = VBool False \<rparr>"

definition visits_field :: ModelField where
  "visits_field = \<lparr> field_name = ''visits'', field_type = py_int_t,
                     field_required = False, field_default = VInt 0 \<rparr>"

definition Person_fields :: "ModelField dict" where
  "Person_fields = [(''name'', name_field), (''age'', age_field), (''active'', active_field),
                    (''visits'', visits_field)]"

definition check_name :: "pyval dict \<Rightarrow> raw_error + pyval" where
  "check_name d = (case map_of d ''name'' of
      None \<Rightarrow> Inl (ErrorWrapper (Exc PydanticValueError ''field required'') [LocStr ''name''])
    | Some (VStr s) \<Rightarrow> Inr (VStr s)
    | Some _ \<Rightarrow> Inl (ErrorWrapper (Exc PydanticTypeError ''str type expected'')
                       [LocStr ''name'']))"

definition check_age :: "pyval dict \<Rightarrow> raw_error + pyval" where
  "check_age d = (case map_of d ''age'' of
      None \<Rightarrow> Inr (VInt 18)
    | Some (VInt a) \<Rightarrow>
        if a < 0 then Inl (ErrorWrapper (Exc PydanticValueError ''value is less than 0'')
                             [LocStr ''age''])
        else if 120 < a then Inl (ErrorWrapper (Exc PydanticValueError
                                     ''value is greater than 120'') [LocStr ''age''])
        else Inr (VInt a)
    | Some _ \<Rightarrow> Inl (ErrorWrapper (Exc PydanticTypeError ''value is not a valid integer'')
                       [LocStr ''age'']))"

definition check_active :: "pyval dict \<Rightarrow> raw_error + pyval" where
  "check_active d = (case map_of d ''active'' of
      None \<Rightarrow> Inr (VBool False)
    | Some (VBool b) \<Rightarrow> Inr (VBool b)
    | Some _ \<Rightarrow> Inl (ErrorWrapper (Exc PydanticTypeError
                         ''value could not be parsed to a boolean'') [LocStr ''active'']))"

definition check_visits :: "pyval dict \<Rightarrow> raw_error + pyval" where
  "check_visits d = (case map_of d ''visits'' of
      None \<Rightarrow> Inr (VInt 0)
    | Some (VInt n) \<Rightarrow> Inr (VInt n)
    | Some _ \<Rightarrow> Inl (ErrorWrapper (Exc PydanticTypeError ''value is not a valid integer'')
                       [LocStr ''visits'']))"

definition Person_new :: "pyval dict \<Rightarrow> exn + model_inst" where
  "Person_new d =
     (let rs = [check_name d, check_age d, check_active d, check_visits d]
      in if lefts rs = []
         then Inr \<lparr> inst_mro = [''Person'', ''BaseModel'', ''object''],
                    inst_dict = zip [''name'', ''age'', ''active'', ''visits''] (rights rs) \<rparr>
         else Inl (ValidationError (lefts rs)))"

definition Person :: model_class where
  "Person = \<lparr> model_name = ''Person'', model_fields = Person_fields, model_new = Person_new \<rparr>"

text \<open>
  \<open>class PersonForm(Form)\<close> with \<open>class Config: model = Person; prefix = "f_"\<close>, and its
  \<open>__config__\<close> as the metaclass builds it (\<open>PersonForm_config_new\<close> below).
\<close>

definition PersonForm_Config :: cls where
  "PersonForm_Config = Cls 3 [(''model'', CModel Person), (''prefix'', CVal (VStr ''f_''))] []"

definition PersonForm_config :: cls where
  "PersonForm_config = Cls 5 [] [PersonForm_Config, Cls 4 [] [Form_config, BaseConfig]]"

definition person_form :: "pyval dict option \<Rightarrow> form" where
  "person_form d = \<lparr> config = PersonForm_config, f_data = d, f_error = None, f_model = None,
                      f_initial = None,
                      f_model_data = (case d of None \<Rightarrow> [] | Some kvs \<Rightarrow> dict_update [] kvs),
                      bind_cache = [], heap = [] \<rparr>"

section \<open>The memo of a form\<close>

text \<open>
  A form is bound once \<open>_error\<close> or \<open>_model\<close> is set; what \<open>clean\<close> then returns or
  raises is the stored outcome.
\<close>

definition stored_outcome :: "form \<Rightarrow> exn + unit" where
  "stored_outcome s = (case f_error s of Some e \<Rightarrow> Inl (ValidationError e) | None \<Rightarrow> Inr ())"

definition bound :: "form \<Rightarrow> bool" where
  "bound s = (f_error s \<noteq> None \<or> f_model s \<noteq> None)"

section \<open>Regrouping violations, in the words of the specification\<close>

text \<open>
  A violation the loop of \<open>errors\<close> accepts: an \<open>ErrorWrapper\<close> around a
  \<open>PydanticValueError\<close> whose location has one component, read as the pair of field and
  violation. \<open>regroup\<close> is the mapping the specification describes: the fields in the
  order of their first report, each once, each with the list of its violations in report
  order.
\<close>

fun field_violation :: "raw_error \<Rightarrow> (loc_item \<times> pyexc) option" where
  "field_violation (ErrorWrapper exc [field]) =
     (if exc_cls exc = PydanticValueError then Some (field, exc) else None)"
| "field_violation e = None"

definition first_seen :: "'a list \<Rightarrow> 'a list" where
  "first_seen ks = rev (remdups (rev ks))"

definition regroup :: "(loc_item \<times> pyexc) list \<Rightarrow> (loc_item \<times> pyexc list) list" where
  "regroup ps = map (\<lambda>k. (k, map snd (filter (\<lambda>p. fst p = k) ps))) (first_seen (map fst ps))"

section \<open>More examples\<close>

text \<open>
  \<open>class CheckForm(PersonForm)\<close> with \<open>class Config: widget_classes = {"age": Checkbox}\<close>.
\<close>

definition CheckForm_Config :: cls where
  "CheckForm_Config = Cls 6 [(''widget_classes'', CWidgetClasses [(''age'', Checkbox)])] []"

definition CheckForm_config :: cls where
  "CheckForm_config = Cls 8 [] [CheckForm_Config, Cls 7 [] [PersonForm_config, BaseConfig]]"

definition check_form :: form where
  "check_form = (person_form None)\<lparr> config := CheckForm_config \<rparr>"

text \<open>Two model instances: one of the schema \<open>Person\<close>, one of another model.\<close>

definition al :: model_inst where
  "al = \<lparr> inst_mro = [''Person'', ''BaseModel'', ''object''],
          inst_dict = [(''name'', VStr ''Al''), (''age'', VInt 30), (''active'', VBool True),
                       (''visits'', VInt 0)] \<rparr>"

definition stranger :: model_inst where
  "stranger = \<lparr> inst_mro = [''Pet'', ''BaseModel'', ''object''],
                inst_dict = [(''name'', VStr ''Rex'')] \<rparr>"

definition al_form :: form where
  "al_form = \<lparr> config = PersonForm_config, f_data = None, f_error = None, f_model = None,
               f_initial = Some al, f_model_data = inst_dict al, bind_cache = [], heap = [] \<rparr>"

text \<open>Raw data that validates, raw data that does not, and the forms \<open>clean\<close> leaves.\<close>

definition good_data :: "pyval dict" where
  "good_data = [(''name'', VStr ''Al''), (''age'', VInt 30), (''active'', VBool True)]"

definition bad_data :: "pyval dict" where
  "bad_data = [(''name'', VStr ''Al''), (''age'', VInt 200)]"

definition too_old :: raw_error where
  "too_old = ErrorWrapper (Exc PydanticValueError ''value is greater than 120'') [LocStr ''age'']"

definition bad_form :: form where
  "bad_form = (person_form (Some bad_data))\<lparr> f_error := Some [too_old] \<rparr>"

definition good_form :: form where
  "good_form = (person_form (Some good_data))\<lparr> f_model := Some al, f_model_data := inst_dict al \<rparr>"

text \<open>
  Raw data with text where the age should be: pydantic reports a type error. A model that
  reports one field twice. A date widget.
\<close>

definition abc_data :: "pyval dict" where
  "abc_data = [(''name'', VStr ''Al''), (''age'', VStr ''abc'')]"

definition not_int :: raw_error where
  "not_int = ErrorWrapper (Exc PydanticTypeError ''value is not a valid integer'') [LocStr ''age'']"

definition abc_form :: form where
  "abc_form = (person_form (Some abc_data))\<lparr> f_error := Some [not_int] \<rparr>"

definition signup_errors :: "raw_error list" where
  "signup_errors =
     [ErrorWrapper (Exc PydanticValueError ''too short'') [LocStr ''password''],
      ErrorWrapper (Exc PydanticValueError ''field required'') [LocStr ''email''],
      ErrorWrapper (Exc PydanticValueError ''no digit'') [LocStr ''password'']]"

definition Signup :: model_class where
  "Signup = \<lparr> model_name = ''Signup'', model_fields = [],
              model_new = (\<lambda>d. if map_of d ''password'' = Some (VStr ''secret1234'')
                                then Inr \<lparr> inst_mro = [''Signup'', ''BaseModel'', ''object''],
                                           inst_dict = d \<rparr>
                                else Inl (ValidationError signup_errors)) \<rparr>"

definition SignupForm_config :: cls where
  "SignupForm_config =
     Cls 11 [] [Cls 9 [(''model'', CModel Signup)] [], Cls 10 [] [Form_config, BaseConfig]]"

definition signup_form :: form where
  "signup_form = \<lparr> config = SignupForm_config, f_data = None, f_error = None, f_model = None,
                   f_initial = None, f_model_data = [], bind_cache = [], heap = [] \<rparr>"

definition date_widget :: widget where
  "date_widget = \<lparr> widget_cls = Date,
     widget_dict = [(''name'', VStr ''born''), (''id'', VNone), (''value'', VDate 2024 5 17),
                    (''required'', VBool False), (''class_'', VNone), (''autofocus'', VBool False),
                    (''autocomplete'', VNone), (''placeholder'', VNone), (''type'', VStr ''date''),
                    (''list'', VNone), (''format'', VStr ''%Y-%m-%d'')] \<rparr>"

text \<open>
  The valid form after \<open>bind_field("age")\<close>, the widget of that field, and the form after
  the widget has been built.
\<close>

definition bound_form :: form where
  "bound_form = good_form\<lparr> heap := [\<lparr> bf_field = age_field, bf_widget = None \<rparr>],
                            bind_cache := [(''age'', 0)] \<rparr>"

definition age_widget :: widget where
  "age_widget = \<lparr> widget_cls = Number,
     widget_dict = [(''name'', VStr ''f_age''), (''id'', VStr ''id_f_age''), (''value'', VInt 30),
                    (''required'', VBool False), (''class_'', VNone), (''autofocus'', VBool False),
                    (''autocomplete'', VNone), (''placeholder'', VNone), (''type'', VStr ''number''),
                    (''list'', VNone), (''min'', VStr ''0''), (''max'', VStr ''120''),
                    (''step'', VNone)] \<rparr>"

definition widget_form :: form where
  "widget_form = bound_form\<lparr> heap := [\<lparr> bf_field = age_field, bf_widget = Some age_widget \<rparr>] \<rparr>"

text \<open>
  The attribute a bound becomes: nothing for no bound, else its text. The widget of the
  field \<open>visits\<close>, an \<open>int\<close> with no bounds.
\<close>

definition bound_attr :: "pyval \<Rightarrow> pyval" where
  "bound_attr b = (if b = VNone then VNone else VStr (py_str b))"

definition visits_widget :: widget where
  "visits_widget = \<lparr> widget_cls = Number,
     widget_dict = [(''name'', VStr ''f_visits''), (''id'', VStr ''id_f_visits''),
                    (''value'', VInt 0), (''required'', VBool False), (''class_'', VNone),
                    (''autofocus'', VBool False), (''autocomplete'', VNone),
                    (''placeholder'', VNone), (''type'', VStr ''number''), (''list'', VNone),
                    (''min'', VNone), (''max'', VNone), (''step'', VNone)] \<rparr>"

text \<open>
  \<open>class A(Form)\<close> with \<open>class Config: model = Person; prefix = "a_"\<close>, and
  \<open>class B(A)\<close>, once with no \<open>Config\<close> of its own and once with
  \<open>class Config: prefix = "b_"\<close>.
\<close>

definition A_Config :: cls where
  "A_Config = Cls 20 [(''model'', CModel Person), (''prefix'', CVal (VStr ''a_''))] []"

definition A_config :: cls where
  "A_config = Cls 22 [] [A_Config, Cls 21 [] [Form_config, BaseConfig]]"

definition B_Config :: cls where
  "B_Config = Cls 23 [(''prefix'', CVal (VStr ''b_''))] []"

definition B_config_inherited :: cls where
  "B_config_inherited = Cls 24 [] [A_config, BaseConfig]"

definition B_config_overridden :: cls where
  "B_config_overridden = Cls 25 [] [B_Config, B_config_inherited]"

section \<open>Facts about the example\<close>

lemmas c3_defs = c3_merge.simps good_head_def in_tail_def drop_head_def

lemmas example_cfg_defs =
  PersonForm_config_def PersonForm_Config_def Form_config_def Form_Config_def BaseConfig_def

lemma Form_config_new:
  "FormMetaclass_new True 2 [BaseFormBase] (Some Form_Config) = Inr (Form_config, 3)"
  by (simp add: FormMetaclass_new_def inherit_config_def py_type_def example_cfg_defs c3_defs)

lemma PersonForm_config_new:
  "FormMetaclass_new True 4 [FormBase Form_config] (Some PersonForm_Config) =
     Inr (PersonForm_config, 6)"
  by (simp add: FormMetaclass_new_def inherit_config_def py_type_def example_cfg_defs c3_defs)

lemma mro_PersonForm_config:
  "mro PersonForm_config =
     Some [PersonForm_config, PersonForm_Config, Cls 4 [] [Form_config, BaseConfig],
           Form_config, Form_Config, BaseConfig]"
  by (simp add: example_cfg_defs c3_defs)

lemma cfg_PersonForm:
  "cfg_model PersonForm_config = Inr Person"
  "cfg_prefix PersonForm_config = Inr ''f_''"
  "cfg_widget_classes PersonForm_config = Inr []"
  "cfg_widget_kwargs PersonForm_config = Inr []"
  by (simp_all add: cfg_model_def cfg_prefix_def cfg_widget_classes_def cfg_widget_kwargs_def
        py_getattr_def mro_PersonForm_config)
     (simp_all add: example_cfg_defs)

lemma person_form_init: "BaseForm_init PersonForm_config d None = Inr (person_form d)"
  by (simp add: BaseForm_init_def person_form_def get_model_data_def split: option.splits)

lemma CheckForm_config_new:
  "FormMetaclass_new True 7 [FormBase PersonForm_config] (Some CheckForm_Config) =
     Inr (CheckForm_config, 9)"
  by (simp add: FormMetaclass_new_def inherit_config_def py_type_def CheckForm_config_def
        CheckForm_Config_def example_cfg_defs c3_defs)

lemma mro_CheckForm_config:
  "mro CheckForm_config =
     Some [CheckForm_config, CheckForm_Config, Cls 7 [] [PersonForm_config, BaseConfig],
           PersonForm_config, PersonForm_Config, Cls 4 [] [Form_config, BaseConfig],
           Form_config, Form_Config, BaseConfig]"
  by (simp add: CheckForm_config_def CheckForm_Config_def example_cfg_defs c3_defs)

lemma cfg_CheckForm:
  "cfg_widget_classes CheckForm_config = Inr [(''age'', Checkbox)]"
  "cfg_model CheckForm_config = Inr Person"
  by (simp_all add: cfg_widget_classes_def cfg_model_def py_getattr_def mro_CheckForm_config)
     (simp_all add: CheckForm_config_def CheckForm_Config_def example_cfg_defs)

section \<open>What every call leaves unchanged\<close>

lemma step_keeps:
  "config (step s c) = config s \<and> f_initial (step s c) = f_initial s"
  by (cases c)
     (auto simp: clean_def data_def errors_def is_valid_def bind_field_def BoundField_widget_def
        set_data_def Let_def split: option.splits sum.splits exn.splits prod.splits)

lemma steps_keeps:
  "config (steps s cs) = config s \<and> f_initial (steps s cs) = f_initial s"
  unfolding steps_def
  by (induction cs arbitrary: s) (simp_all add: step_keeps)

lemmas example_defs =
  person_form_def good_data_def bad_data_def too_old_def bad_form_def good_form_def al_def
  Person_def Person_new_def check_name_def check_age_def check_active_def check_visits_def dict_update_def

lemma clean_bad_form: "clean (person_form (Some bad_data)) = (Inl (ValidationError [too_old]), bad_form)"
  by (simp add: clean_def get_model_class_def get_model_data_def process_data_def cfg_PersonForm
        example_defs Let_def)

lemma clean_good_form: "clean (person_form (Some good_data)) = (Inr (), good_form)"
  by (simp add: clean_def get_model_class_def get_model_data_def process_data_def cfg_PersonForm
        example_defs Let_def)

section \<open>Facts about \<open>clean\<close>\<close>

lemma cfg_model_not_validation: "cfg_model c \<noteq> Inl (ValidationError es)"
  by (auto simp: cfg_model_def py_getattr_def split: option.splits sum.splits cfgval.splits)

lemma clean_bound: "bound s \<Longrightarrow> clean s = (stored_outcome s, s)"
  by (auto simp: bound_def clean_def stored_outcome_def split: option.splits)

lemma clean_bound_any_config:
  "bound s \<Longrightarrow> clean (s\<lparr> config := c \<rparr>) = (stored_outcome s, s\<lparr> config := c \<rparr>)"
  by (auto simp: bound_def clean_def stored_outcome_def split: option.splits)

lemma clean_first:
  assumes "clean s = (r, s')"
    and "r = Inr () \<or> (\<exists>es. r = Inl (ValidationError es))"
    and "f_error s = None \<or> f_model s = None"
  shows "bound s' \<and> stored_outcome s' = r \<and> (f_error s' = None) \<noteq> (f_model s' = None)"
  using assms cfg_model_not_validation [of "config s"]
  by (auto simp: clean_def bound_def stored_outcome_def get_model_class_def Let_def
      split: option.splits sum.splits exn.splits)

lemma step_bound:
  "bound s \<Longrightarrow> f_error (step s c) = f_error s \<and> f_model (step s c) = f_model s"
  by (cases c)
     (auto simp: clean_bound data_def errors_def is_valid_def bind_field_def BoundField_widget_def
        set_data_def Let_def split: option.splits sum.splits exn.splits prod.splits)

lemma steps_bound:
  "bound s \<Longrightarrow> f_error (steps s cs) = f_error s \<and> f_model (steps s cs) = f_model s"
  unfolding steps_def
proof (induction cs arbitrary: s)
  case Nil
  then show ?case by simp
next
  case (Cons c cs)
  from Cons.prems have k: "f_error (step s c) = f_error s \<and> f_model (step s c) = f_model s"
    by (rule step_bound)
  with Cons.prems have "bound (step s c)" by (simp add: bound_def)
  from Cons.IH [OF this] k show ?case by simp
qed

lemma data_bound:
  "bound s \<Longrightarrow> data s = ((case stored_outcome s of Inl e \<Rightarrow> Inl e | Inr _ \<Rightarrow> Inr (f_model s)), s)"
  by (simp add: data_def clean_bound split: sum.splits)

lemma is_valid_bound:
  "bound s \<Longrightarrow> is_valid s = (Inr (stored_outcome s = Inr ()), s)"
  by (auto simp: is_valid_def clean_bound stored_outcome_def split: sum.splits option.splits)

lemma errors_bound:
  "bound s \<Longrightarrow> errors s = ((case f_error s of None \<Rightarrow> Inr None
       | Some es \<Rightarrow> map_sum id Some (errors_loop es [])), s)"
  by (auto simp: errors_def clean_bound stored_outcome_def split: sum.splits option.splits)

lemma clean_validation_stored:
  "clean s = (Inl (ValidationError es), s') \<Longrightarrow> f_error s' = Some es \<and> clean s' = (Inl (ValidationError es), s')"
  using cfg_model_not_validation [of "config s"]
  by (auto simp: clean_def get_model_class_def Let_def split: option.splits sum.splits exn.splits)

lemma clean_ok_stored:
  "clean s = (Inr u, s') \<Longrightarrow> clean s' = (Inr (), s')"
  by (auto simp: clean_def get_model_class_def Let_def split: option.splits sum.splits exn.splits)

lemma clean_other_unchanged:
  "clean s = (Inl e, s') \<Longrightarrow> \<forall>es. e \<noteq> ValidationError es \<Longrightarrow> s' = s"
  by (auto simp: clean_def get_model_class_def Let_def split: option.splits sum.splits exn.splits)

lemma clean_twice: "clean (snd (clean s)) = (fst (clean s), snd (clean s))"
proof (cases "clean s")
  case (Pair r s')
  show ?thesis
  proof (cases r)
    case (Inl e)
    show ?thesis
    proof (cases "\<exists>es. e = ValidationError es")
      case True
      with Pair Inl clean_validation_stored show ?thesis by auto
    next
      case False
      with Pair Inl clean_other_unchanged [of s e s'] show ?thesis by auto
    qed
  next
    case (Inr u)
    with Pair clean_ok_stored [of s u s'] show ?thesis by auto
  qed
qed

lemma setdefault_append_nonempty: "setdefault_append d k v \<noteq> []"
  by (cases d) (auto simp: setdefault_append_def split: option.splits)

lemma errors_loop_nonempty:
  "errors_loop es acc = Inr d \<Longrightarrow> es \<noteq> [] \<or> acc \<noteq> [] \<Longrightarrow> d \<noteq> []"
proof (induction es acc rule: errors_loop.induct)
  case (3 exc loc rest errors)
  then show ?case
    by (auto simp: setdefault_append_nonempty split: if_splits list.splits)
qed simp_all

lemma is_valid_ok: "clean s = (Inr u, s') \<Longrightarrow> is_valid s = (Inr True, s')"
  by (simp add: is_valid_def)

lemma errors_ok: "clean s = (Inr u, s') \<Longrightarrow> errors s = (Inr None, s')"
  by (simp add: errors_def)

lemma is_valid_invalid: "clean s = (Inl (ValidationError es), s') \<Longrightarrow> is_valid s = (Inr False, s')"
  by (simp add: is_valid_def)

lemma errors_invalid:
  "clean s = (Inl (ValidationError es), s') \<Longrightarrow>
   errors s = ((case errors_loop es [] of Inl e \<Rightarrow> Inl e | Inr d \<Rightarrow> Inr (Some d)), s')"
  using clean_validation_stored [of s es s']
  by (simp add: errors_def split: sum.splits)

lemma is_valid_other:
  "clean s = (Inl e, s') \<Longrightarrow> \<forall>es. e \<noteq> ValidationError es \<Longrightarrow> is_valid s = (Inl e, s')"
  by (cases e) (simp_all add: is_valid_def)

lemma errors_other:
  "clean s = (Inl e, s') \<Longrightarrow> \<forall>es. e \<noteq> ValidationError es \<Longrightarrow> errors s = (Inl e, s')"
  by (cases e) (simp_all add: errors_def)

section \<open>Facts about regrouping\<close>

lemma first_seen_snoc:
  "first_seen (xs @ [k]) = (if k \<in> set xs then first_seen xs else first_seen xs @ [k])"
  by (simp add: first_seen_def)

lemma set_first_seen: "set (first_seen xs) = set xs" and distinct_first_seen: "distinct (first_seen xs)"
  by (simp_all add: first_seen_def)

lemma map_of_tabulate:
  "map_of (map (\<lambda>k. (k, f k)) ks) k = (if k \<in> set ks then Some (f k) else None)"
  by (induction ks) auto

lemma update_tabulate:
  "k \<in> set ks \<Longrightarrow> distinct ks \<Longrightarrow>
   AList.update k v (map (\<lambda>x. (x, f x)) ks) = map (\<lambda>x. (x, if x = k then v else f x)) ks"
proof (induction ks)
  case Nil
  then show ?case by simp
next
  case (Cons a ks)
  show ?case
  proof (cases "a = k")
    case True
    with Cons.prems have "k \<notin> set ks" by simp
    then have "map (\<lambda>x. (x, if x = k then v else f x)) ks = map (\<lambda>x. (x, f x)) ks"
      by (intro map_cong) auto
    with True show ?thesis by simp
  next
    case False
    with Cons show ?thesis by simp
  qed
qed

lemma regroup_snoc: "setdefault_append (regroup ps) k v = regroup (ps @ [(k, v)])"
proof (cases "k \<in> set (map fst ps)")
  case True
  then have m: "map_of (regroup ps) k = Some (map snd (filter (\<lambda>p. fst p = k) ps))"
    by (simp add: regroup_def map_of_tabulate set_first_seen)
  from True have in_keys: "k \<in> set (first_seen (map fst ps))"
    by (simp add: set_first_seen)
  show ?thesis
    using True
    by (simp add: setdefault_append_def m)
       (simp add: regroup_def first_seen_snoc update_tabulate [OF in_keys distinct_first_seen])
next
  case False
  then have m: "map_of (regroup ps) k = None"
    by (simp add: regroup_def map_of_tabulate set_first_seen)
  from False have none: "filter (\<lambda>p. fst p = k) ps = []"
    by (auto simp: filter_empty_conv)
  from False none show ?thesis
    by (simp add: setdefault_append_def m)
       (auto simp add: regroup_def first_seen_snoc set_first_seen)
qed

lemma foldl_regroup:
  "foldl (\<lambda>d p. setdefault_append d (fst p) (snd p)) (regroup qs) ps = regroup (qs @ ps)"
proof (induction ps arbitrary: qs)
  case Nil
  then show ?case by simp
next
  case (Cons p ps)
  show ?case
    using Cons.IH [of "qs @ [p]"] by (cases p) (simp add: regroup_snoc)
qed

lemma errors_loop_field_violations:
  "list_all (\<lambda>x. field_violation x \<noteq> None) es \<Longrightarrow>
   errors_loop es acc =
     Inr (foldl (\<lambda>d p. setdefault_append d (fst p) (snd p)) acc (List.map_filter field_violation es))"
proof (induction es acc rule: errors_loop.induct)
  case (1 errors)
  then show ?case by simp
next
  case (2 uu uv errors)
  then show ?case by simp
next
  case (3 exc loc rest errors)
  from "3.prems" obtain field where loc: "loc = [field]" and v: "exc_cls exc = PydanticValueError"
    by (cases loc; cases "tl loc") (auto split: if_splits)
  with 3 show ?case
    by simp
qed

lemma errors_loop_regroup:
  "list_all (\<lambda>x. field_violation x \<noteq> None) es \<Longrightarrow>
   errors_loop es [] = Inr (regroup (List.map_filter field_violation es))"
  using foldl_regroup [of "[]" "List.map_filter field_violation es"]
  by (simp add: errors_loop_field_violations) (simp add: regroup_def first_seen_def)


lemma regroup_lookup:
  "map_of (regroup ps) k =
     (if k \<in> fst ` set ps then Some (map snd (filter (\<lambda>p. fst p = k) ps)) else None)"
  by (simp add: regroup_def map_of_tabulate set_first_seen)

lemma regroup_keys: "map fst (regroup ps) = first_seen (map fst ps)"
  by (simp add: regroup_def comp_def)

lemma cfg_SignupForm: "cfg_model SignupForm_config = Inr Signup"
  by (simp add: cfg_model_def py_getattr_def SignupForm_config_def example_cfg_defs c3_defs)

lemma clean_signup_form:
  "clean signup_form = (Inl (ValidationError signup_errors), signup_form\<lparr> f_error := Some signup_errors \<rparr>)"
  by (simp add: clean_def get_model_class_def get_model_data_def process_data_def Let_def
        signup_form_def cfg_SignupForm Signup_def)

lemma clean_abc_form:
  "clean (person_form (Some abc_data)) = (Inl (ValidationError [not_int]), abc_form)"
  by (simp add: clean_def get_model_class_def get_model_data_def process_data_def cfg_PersonForm
        example_defs Let_def abc_data_def abc_form_def not_int_def)

lemma strftime_never_formats:
  "List.member [Date, Time, DateTime] (widget_cls w) \<Longrightarrow> v \<noteq> VNone \<Longrightarrow>
   format_value w v = Inl (AttributeError ''strftime'')
   \<or> format_value w v = Inl (TypeError ''strftime() argument 1 must be str'')"
  by (auto simp: format_value_def StrftimeMixin_format_value_def strftime_def)

section \<open>Facts about the cache of bound fields and the heap\<close>

lemma clean_keeps_cache_heap:
  "bind_cache (snd (clean s)) = bind_cache s \<and> heap (snd (clean s)) = heap s"
  by (auto simp: clean_def Let_def split: option.splits sum.splits exn.splits)

lemma calls_keep_cache_heap:
  "bind_cache (snd (data s)) = bind_cache s \<and> heap (snd (data s)) = heap s"
  "bind_cache (snd (errors s)) = bind_cache s \<and> heap (snd (errors s)) = heap s"
  "bind_cache (snd (is_valid s)) = bind_cache s \<and> heap (snd (is_valid s)) = heap s"
  using clean_keeps_cache_heap [of s]
  by (auto simp: data_def errors_def is_valid_def split: prod.splits sum.splits exn.splits option.splits)

lemma bind_field_cache:
  "bind_cache (snd (bind_field s y)) = bind_cache s
   \<or> (map_of (bind_cache s) y = None
       \<and> bind_cache (snd (bind_field s y)) = AList.update y (length (heap s)) (bind_cache s))"
  using clean_keeps_cache_heap [of s]
  by (auto simp: bind_field_def Let_def split: option.splits prod.splits sum.splits)

lemma bind_field_heap:
  "heap (snd (bind_field s y)) = heap s \<or> (\<exists>b. heap (snd (bind_field s y)) = heap s @ [b])"
  using clean_keeps_cache_heap [of s]
  by (auto simp: bind_field_def Let_def split: option.splits prod.splits sum.splits)

lemma widget_cache: "bind_cache (snd (BoundField_widget s r)) = bind_cache s"
  by (auto simp: BoundField_widget_def Let_def split: option.splits sum.splits)

lemma widget_heap:
  "heap (snd (BoundField_widget s r')) = heap s
   \<or> (r' < length (heap s) \<and> bf_widget (heap s ! r') = None
       \<and> (\<exists>b. heap (snd (BoundField_widget s r')) = (heap s)[r' := b]))"
  by (auto simp: BoundField_widget_def Let_def split: option.splits sum.splits)

lemma step_cache_entry:
  "map_of (bind_cache s) x = Some r \<Longrightarrow> map_of (bind_cache (step s c)) x = Some r"
proof (cases c)
  case (CallBindField y)
  assume "map_of (bind_cache s) x = Some r"
  with bind_field_cache [of s y] CallBindField show ?thesis
    by (auto simp: update_conv')
qed (simp_all add: clean_keeps_cache_heap calls_keep_cache_heap widget_cache set_data_def)

lemma step_cache_distinct:
  "distinct (map fst (bind_cache s)) \<Longrightarrow> distinct (map fst (bind_cache (step s c)))"
proof (cases c)
  case (CallBindField y)
  assume "distinct (map fst (bind_cache s))"
  with bind_field_cache [of s y] CallBindField show ?thesis
    by (auto simp: distinct_update)
qed (simp_all add: clean_keeps_cache_heap calls_keep_cache_heap widget_cache set_data_def)

lemma step_widget_slot:
  assumes "r < length (heap s)" and "bf_widget (heap s ! r) = Some w"
  shows "r < length (heap (step s c)) \<and> bf_widget (heap (step s c) ! r) = Some w"
proof (cases c)
  case (CallBindField y)
  with bind_field_heap [of s y] assms show ?thesis
    by (auto simp: nth_append)
next
  case (CallWidget r')
  with widget_heap [of s r'] assms show ?thesis
    by (cases "r' = r") auto
qed (simp_all add: assms clean_keeps_cache_heap calls_keep_cache_heap set_data_def)

lemma steps_induct_inv:
  assumes "P s" and "\<And>s c. P s \<Longrightarrow> P (step s c)"
  shows "P (steps s cs)"
  unfolding steps_def using assms(1)
  by (induction cs arbitrary: s) (simp_all add: assms(2))

lemma bind_field_hit: "map_of (bind_cache s) x = Some r \<Longrightarrow> bind_field s x = (Inr r, s)"
  by (simp add: bind_field_def)

lemma bind_field_result:
  "bind_field s x = (Inr r, s') \<Longrightarrow> map_of (bind_cache s') x = Some r"
  by (auto simp: bind_field_def Let_def update_conv' split: option.splits prod.splits sum.splits)

lemma bind_field_distinct:
  "distinct (map fst (bind_cache s)) \<Longrightarrow> distinct (map fst (bind_cache (snd (bind_field s x))))"
  using step_cache_distinct [of s "CallBindField x"] by simp

lemma widget_hit:
  "r < length (heap s) \<Longrightarrow> bf_widget (heap s ! r) = Some w \<Longrightarrow> BoundField_widget s r = (Inr w, s)"
  by (simp add: BoundField_widget_def)

lemma widget_result:
  "BoundField_widget s r = (Inr w, s') \<Longrightarrow> r < length (heap s') \<and> bf_widget (heap s' ! r) = Some w"
  by (auto simp: BoundField_widget_def Let_def split: option.splits sum.splits if_splits)

lemma person_form_fresh: "bind_cache (person_form d) = []" "heap (person_form d) = []"
  by (simp_all add: person_form_def)

lemma bind_age: "bind_field (person_form (Some good_data)) ''age'' = (Inr 0, bound_form)"
  by (simp add: bind_field_def clean_good_form person_form_fresh)
     (simp add: bound_form_def good_form_def person_form_def cfg_PersonForm Person_def Person_fields_def)

lemmas widget_defs =
  make_widget_def widget_class_def widget_kwargs_def prefix_name_def BoundField_value_def
  BoundField_required_def value_of_def additional_kwargs_def Number_additional_kwargs_def
  Widget_additional_kwargs_def getattr_type_def issubclass_def type_is_def
  widget_new_def populate_def validate_field_def str_validator_def bool_validator_def
  Number_fields_def Input_fields_def Widget_fields_def dict_update_def str_int_def digits.simps

lemma make_age_widget:
  "make_widget bound_form \<lparr> bf_field = age_field, bf_widget = None \<rparr> = Inr age_widget"
  by (simp add: bound_form_def good_form_def person_form_def cfg_PersonForm widget_defs
        Person_def Person_fields_def age_field_def conint_def al_def age_widget_def Let_def)

lemma widget_age: "BoundField_widget bound_form 0 = (Inr age_widget, widget_form)"
  by (simp add: BoundField_widget_def)
     (simp add: bound_form_def make_age_widget [unfolded bound_form_def] widget_form_def)

section \<open>Facts about widget construction\<close>

lemma map_of_dict_update:
  "map_of (dict_update d e) k = (case map_of (rev e) k of Some v \<Rightarrow> Some v | None \<Rightarrow> map_of d k)"
  unfolding dict_update_def
proof (induction e arbitrary: d)
  case Nil
  then show ?case by simp
next
  case (Cons kv e)
  show ?case
    by (cases kv) (auto simp: Cons.IH update_conv' map_add_def split: option.splits)
qed

lemma map_of_rev_None: "map_of (rev xs) k = None \<longleftrightarrow> map_of xs k = None"
  by (simp add: map_of_eq_None_iff)

lemma dict_update_absent:
  assumes "map_of e k = None"
  shows "map_of (dict_update d e) k = map_of d k"
proof -
  from assms have "map_of (rev e) k = None" by (simp add: map_of_rev_None)
  then show ?thesis by (simp add: map_of_dict_update)
qed

lemma populate_name: "populate kw f = Inr (n, v) \<Longrightarrow> n = fst f"
  by (cases f) (auto simp: populate_def split: option.splits sum.splits)

lemma rights_lookup:
  "distinct (map fst fs) \<Longrightarrow> f \<in> set fs \<Longrightarrow> populate kw f = Inr (n, v) \<Longrightarrow>
   map_of (rights (map (populate kw) fs)) n = Some v"
proof (induction fs)
  case Nil
  then show ?case by simp
next
  case (Cons g fs)
  show ?case
  proof (cases "g = f")
    case True
    with Cons.prems show ?thesis by simp
  next
    case False
    with Cons.prems have f: "f \<in> set fs" and d: "distinct (map fst fs)" and ne: "fst g \<noteq> fst f"
      by auto
    from Cons.prems(3) have n: "n = fst f" by (rule populate_name)
    show ?thesis
    proof (cases "populate kw g")
      case (Inl a)
      with Cons.IH [OF d f Cons.prems(3)] show ?thesis by simp
    next
      case (Inr b)
      then have "fst b = fst g" using populate_name [of kw g "fst b" "snd b"] by simp
      with Inr ne n Cons.IH [OF d f Cons.prems(3)] show ?thesis by (cases b) simp
    qed
  qed
qed

lemma map_of_filter_key:
  "P k \<Longrightarrow> map_of (filter (\<lambda>kv. P (fst kv)) xs) k = map_of xs k"
  by (induction xs) auto

lemma Number_additional_kwargs_lookup:
  "map_of (Number_additional_kwargs f) ''min'' =
     (if getattr_type (field_type f) ''ge'' = VNone then None
      else Some (VStr (py_str (getattr_type (field_type f) ''ge''))))"
  "map_of (Number_additional_kwargs f) ''max'' =
     (if getattr_type (field_type f) ''le'' = VNone then None
      else Some (VStr (py_str (getattr_type (field_type f) ''le''))))"
  by (simp_all add: Number_additional_kwargs_def Widget_additional_kwargs_def Let_def)

lemma map_of_rev_Number_additional_kwargs:
  "map_of (rev (Number_additional_kwargs f)) k = map_of (Number_additional_kwargs f) k"
  by (simp add: Number_additional_kwargs_def Widget_additional_kwargs_def Let_def)

lemma widget_kwargs_bounds:
  assumes "widget_kwargs s self Number = Inr kwargs"
    and "cfg_widget_kwargs (config s) = Inr wk"
    and "map_of (case map_of wk (field_name (bf_field self)) of None \<Rightarrow> [] | Some extra \<Rightarrow> extra) k = None"
    and "k = ''min'' \<or> k = ''max''"
  shows "map_of kwargs k = map_of (Number_additional_kwargs (bf_field self)) k"
proof -
  from assms(1,2) obtain name v where
    kw: "kwargs = dict_update
           (dict_update [(''name'', VStr name), (''id'', VStr (''id_'' @ name)),
                         (''required'', VBool (BoundField_required self)), (''value'', v)]
              (Number_additional_kwargs (bf_field self)))
           (case map_of wk (field_name (bf_field self)) of None \<Rightarrow> [] | Some extra \<Rightarrow> extra)"
    by (auto simp: widget_kwargs_def Let_def additional_kwargs_def split: sum.splits)
  have b: "map_of [(''name'', VStr name), (''id'', VStr (''id_'' @ name)),
                   (''required'', VBool (BoundField_required self)), (''value'', v)] k = None"
    using assms(4) by auto
  have "map_of kwargs k =
        map_of (dict_update [(''name'', VStr name), (''id'', VStr (''id_'' @ name)),
                         (''required'', VBool (BoundField_required self)), (''value'', v)]
              (Number_additional_kwargs (bf_field self))) k"
    unfolding kw by (rule dict_update_absent [OF assms(3)])
  also have "\<dots> = map_of (Number_additional_kwargs (bf_field self)) k"
    unfolding map_of_dict_update map_of_rev_Number_additional_kwargs b
    by (simp split: option.splits)
  finally show ?thesis .
qed


lemma Number_fields_distinct: "distinct (map fst Number_fields)"
  by (simp add: Number_fields_def Input_fields_def Widget_fields_def)

lemma Number_fields_bounds:
  "(''min'', ''min'', OptStrField, Some VNone) \<in> set Number_fields"
  "(''max'', ''max'', OptStrField, Some VNone) \<in> set Number_fields"
  by (simp_all add: Number_fields_def)

lemma populate_bound:
  assumes "map_of kwargs k = (if b = VNone then None else Some (VStr (py_str b)))"
  shows "populate kwargs (k, k, OptStrField, Some VNone) = Inr (k, bound_attr b)"
  using assms by (simp add: populate_def validate_field_def str_validator_def bound_attr_def)

lemma widget_new_Number:
  assumes "widget_new Number kwargs = Inr w"
    and "map_of kwargs k = (if b = VNone then None else Some (VStr (py_str b)))"
    and "(k, k, OptStrField, Some VNone) \<in> set Number_fields"
  shows "widget_cls w = Number \<and> map_of (widget_dict w) k = Some (bound_attr b)"
proof -
  from assms(1) have w: "w = \<lparr> widget_cls = Number,
      widget_dict = rights (map (populate kwargs) Number_fields) \<rparr>"
    by (simp add: widget_new_def Let_def split: if_splits)
  from rights_lookup [OF Number_fields_distinct assms(3) populate_bound [OF assms(2)]] w
  show ?thesis by simp
qed

lemma make_visits_widget:
  "make_widget good_form \<lparr> bf_field = visits_field, bf_widget = None \<rparr> = Inr visits_widget"
  by (simp add: good_form_def person_form_def cfg_PersonForm widget_defs
        Person_def Person_fields_def visits_field_def py_int_t_def al_def visits_widget_def Let_def)

lemma make_age_widget_good:
  "make_widget good_form \<lparr> bf_field = age_field, bf_widget = None \<rparr> = Inr age_widget"
  by (simp add: good_form_def person_form_def cfg_PersonForm widget_defs
        Person_def Person_fields_def age_field_def conint_def al_def age_widget_def Let_def)

lemmas attrs_defs =
  attrs_def Widget_attrs_def format_value_def Widget_format_value_def wget_def dict_update_def
  str_int_def digits.simps

section \<open>Facts about the resolution order of configuration classes\<close>

lemma c3_merge_filter: "c3_merge (filter (\<lambda>s. s \<noteq> []) seqs) = c3_merge seqs"
  by (subst c3_merge.simps, subst (2) c3_merge.simps) simp

lemma c3_merge_empty: "c3_merge [] = Some []" "c3_merge [[]] = Some []"
  by (simp_all add: c3_merge.simps)

lemma c3_merge_step:
  assumes "filter (\<lambda>s. s \<noteq> []) seqs = (c # t) # rest"
    and "good_head ((c # t) # rest) c"
  shows "c3_merge seqs = map_option ((#) c) (c3_merge (map (drop_head c) ((c # t) # rest)))"
  by (subst c3_merge.simps) (simp add: assms Let_def)

lemma c3_merge_single: "distinct (map cid xs) \<Longrightarrow> c3_merge [xs] = Some xs"
proof (induction xs)
  case Nil
  then show ?case by (simp add: c3_merge_empty)
next
  case (Cons x xs)
  have "c3_merge [x # xs] = map_option ((#) x) (c3_merge (map (drop_head x) [x # xs]))"
    using Cons.prems by (intro c3_merge_step) (auto simp: good_head_def in_tail_def)
  with Cons show ?case by (simp add: drop_head_def)
qed

lemma c3_merge_last3:
  "distinct (map cid (xs @ [b])) \<Longrightarrow> c3_merge [xs @ [b], [b], [b]] = Some (xs @ [b])"
proof (induction xs)
  case Nil
  have "c3_merge [[b], [b], [b]] = map_option ((#) b) (c3_merge (map (drop_head b) [[b], [b], [b]]))"
    by (intro c3_merge_step) (auto simp: good_head_def in_tail_def)
  then show ?case by (simp add: drop_head_def c3_merge.simps)
next
  case (Cons x xs)
  have "c3_merge [x # xs @ [b], [b], [b]] =
        map_option ((#) x) (c3_merge (map (drop_head x) [x # xs @ [b], [b], [b]]))"
    using Cons.prems by (intro c3_merge_step) (auto simp: good_head_def in_tail_def)
  with Cons show ?case by (auto simp add: drop_head_def)
qed

lemma c3_merge_with_base:
  assumes "distinct (map cid (a # pre @ [b]))"
  shows "c3_merge [a # pre @ [b], [b], [a, b]] = Some (a # pre @ [b])"
proof -
  have "c3_merge [a # pre @ [b], [b], [a, b]] =
        map_option ((#) a) (c3_merge (map (drop_head a) [a # pre @ [b], [b], [a, b]]))"
    using assms by (intro c3_merge_step) (auto simp: good_head_def in_tail_def)
  moreover have "map (drop_head a) [a # pre @ [b], [b], [a, b]] = [pre @ [b], [b], [b]]"
    using assms by (auto simp: drop_head_def)
  moreover have "c3_merge [pre @ [b], [b], [b]] = Some (pre @ [b])"
    using assms by (intro c3_merge_last3) simp
  ultimately show ?thesis by simp
qed

lemma c3_merge_own_first:
  assumes "distinct (map cid (x # la))" and "cid own \<notin> cid ` set (x # la)"
  shows "c3_merge [[own], x # la, [own, x]] = Some (own # x # la)"
proof -
  have 1: "c3_merge [[own], x # la, [own, x]] =
        map_option ((#) own) (c3_merge (map (drop_head own) [[own], x # la, [own, x]]))"
    using assms by (intro c3_merge_step) (auto simp: good_head_def in_tail_def)
  have 2: "map (drop_head own) [[own], x # la, [own, x]] = [[], x # la, [x]]"
    using assms by (auto simp: drop_head_def)
  have 3: "c3_merge [[], x # la, [x]] =
        map_option ((#) x) (c3_merge (map (drop_head x) [x # la, [x]]))"
    using assms by (intro c3_merge_step) (auto simp: good_head_def in_tail_def)
  have 4: "map (drop_head x) [x # la, [x]] = [la, []]"
    by (simp add: drop_head_def)
  have 5: "c3_merge [la, []] = Some la"
  proof (cases la)
    case Nil
    then show ?thesis by (simp add: c3_merge.simps)
  next
    case (Cons y ys)
    with c3_merge_filter [of "[la, []]"] c3_merge_single [of la] assms(1) show ?thesis by simp
  qed
  from 1 2 3 4 5 show ?thesis by simp
qed

lemma mro_BaseConfig: "mro BaseConfig = Some [BaseConfig]"
  by (simp add: BaseConfig_def c3_merge_empty)

lemma mro_plain: "mro (Cls i d []) = Some [Cls i d []]"
  by (simp add: c3_merge_empty)

lemma mro_inherited:
  assumes "mro a = Some (a # pre @ [BaseConfig])"
    and "distinct (map cid (a # pre @ [BaseConfig]))"
  shows "mro (Cls n [] [a, BaseConfig]) = Some (Cls n [] [a, BaseConfig] # a # pre @ [BaseConfig])"
  using assms c3_merge_with_base [OF assms(2)]
  by (simp add: mro_BaseConfig)

lemma mro_overridden:
  assumes "mro x = Some (x # la)"
    and "distinct (map cid (x # la))"
    and "i \<notin> cid ` set (x # la)"
  shows "mro (Cls m [] [Cls i d [], x]) = Some (Cls m [] [Cls i d [], x] # Cls i d [] # x # la)"
  using assms c3_merge_own_first [OF assms(2), of "Cls i d []"]
  by (simp add: mro_plain del: mro.simps) (simp add: mro_plain c3_merge_empty)


lemma getattr_inherited:
  assumes "mro a = Some (a # pre @ [BaseConfig])"
    and "distinct (map cid (a # pre @ [BaseConfig]))"
  shows "py_getattr (Cls n [] [a, BaseConfig]) k = py_getattr a k"
  using assms(1) by (simp add: py_getattr_def mro_inherited [OF assms] del: mro.simps)

lemma getattr_overridden:
  assumes "mro x = Some (x # la)"
    and "distinct (map cid (x # la))"
    and "i \<notin> cid ` set (x # la)"
  shows "py_getattr (Cls m [] [Cls i d [], x]) k =
           (case map_of d k of Some v \<Rightarrow> Inr v | None \<Rightarrow> py_getattr x k)"
  using assms(1)
  by (simp add: py_getattr_def mro_overridden [OF assms] del: mro.simps split: option.splits)

lemmas AB_defs = A_Config_def A_config_def B_Config_def B_config_inherited_def
  B_config_overridden_def

lemma A_config_new:
  "FormMetaclass_new True 21 [FormBase Form_config] (Some A_Config) = Inr (A_config, 23)"
  by (simp add: FormMetaclass_new_def inherit_config_def py_type_def AB_defs example_cfg_defs c3_defs)

lemma mro_A_config:
  "mro A_config = Some (A_config # [A_Config, Cls 21 [] [Form_config, BaseConfig], Form_config,
                                    Form_Config] @ [BaseConfig])"
  by (simp add: AB_defs example_cfg_defs c3_defs)

lemma cfg_A_config:
  "cfg_prefix A_config = Inr ''a_''" "cfg_model A_config = Inr Person"
  "cfg_widget_classes A_config = Inr []"
  by (simp_all add: cfg_prefix_def cfg_model_def cfg_widget_classes_def py_getattr_def mro_A_config)
     (simp_all add: AB_defs example_cfg_defs)

section \<open>What \<open>errors\<close> returns for value errors\<close>

text \<open>
  \<open>errors\<close> catches the \<open>ValidationError\<close> alone: any other exception \<open>clean\<close> raises
  comes out of \<open>errors\<close> unchanged. On a validation failure whose reports all are value
  errors with a one-component location, \<open>errors\<close> returns them regrouped: each field
  once, in the order of its first report, with the list of its violations in report
  order, so that a field reported twice has both in one list.
\<close>

lemma errors_regroups_value_errors:
  assumes "clean s = (Inl e, s')"
  shows "((\<forall>es. e \<noteq> ValidationError es) \<longrightarrow> errors s = (Inl e, s'))
     \<and> (\<forall>es. e = ValidationError es \<longrightarrow> list_all (\<lambda>x. field_violation x \<noteq> None) es \<longrightarrow>
           errors s = (Inr (Some (regroup (List.map_filter field_violation es))), s'))
     \<and> (\<forall>ps k. distinct (map fst (regroup ps))
           \<and> map fst (regroup ps) = first_seen (map fst ps)
           \<and> map_of (regroup ps) k =
               (if k \<in> fst ` set ps then Some (map snd (filter (\<lambda>p. fst p = k) ps)) else None))"
  using assms errors_other [of s e s']
  by (auto simp: errors_invalid errors_loop_regroup regroup_keys distinct_first_seen regroup_lookup)

lemma errors_regroups_signup:
  "clean signup_form = (Inl (ValidationError signup_errors), signup_form\<lparr> f_error := Some signup_errors \<rparr>)
   \<and> list_all (\<lambda>x. field_violation x \<noteq> None) signup_errors
   \<and> fst (errors signup_form) =
       Inr (Some [(LocStr ''password'', [Exc PydanticValueError ''too short'',
                                           Exc PydanticValueError ''no digit'']),
                  (LocStr ''email'', [Exc PydanticValueError ''field required''])])"
proof -
  have w: "list_all (\<lambda>x. field_violation x \<noteq> None) signup_errors"
    by (simp add: signup_errors_def)
  have r: "regroup (List.map_filter field_violation signup_errors) =
       [(LocStr ''password'', [Exc PydanticValueError ''too short'',
                                Exc PydanticValueError ''no digit'']),
        (LocStr ''email'', [Exc PydanticValueError ''field required''])]"
    by (simp add: signup_errors_def regroup_def first_seen_def List.map_filter_simps)
  from errors_regroups_value_errors [OF clean_signup_form] w r
  show ?thesis
    by (simp add: clean_signup_form)
qed

section \<open>The attributes of a number widget\<close>

lemma rights_keys:
  "lefts (map (populate kw) fs) = [] \<Longrightarrow> map fst (rights (map (populate kw) fs)) = map fst fs"
proof (induction fs)
  case Nil
  then show ?case by simp
next
  case (Cons f fs)
  show ?case
  proof (cases "populate kw f")
    case (Inl a)
    with Cons.prems show ?thesis by simp
  next
    case (Inr b)
    then have "fst b = fst f" using populate_name [of kw f "fst b" "snd b"] by simp
    with Inr Cons show ?thesis by simp
  qed
qed

lemma widget_new_Number_distinct:
  assumes "widget_new Number kwargs = Inr w"
  shows "distinct (map fst (widget_dict w))"
proof -
  from assms have l: "lefts (map (populate kwargs) Number_fields) = []"
    and w: "widget_dict w = rights (map (populate kwargs) Number_fields)"
    by (auto simp: widget_new_def Let_def split: if_splits)
  from rights_keys [OF l] w Number_fields_distinct show ?thesis by simp
qed

lemma distinct_dict_update:
  "distinct (map fst d) \<Longrightarrow> distinct (map fst (dict_update d e))"
  unfolding dict_update_def
  by (induction e arbitrary: d) (simp_all add: distinct_update)

lemma map_of_filter_distinct:
  "distinct (map fst kvs) \<Longrightarrow>
   map_of (filter P kvs) k =
     (case map_of kvs k of None \<Rightarrow> None | Some v \<Rightarrow> if P (k, v) then Some v else None)"
proof (induction kvs)
  case Nil
  then show ?case by simp
next
  case (Cons a kvs)
  show ?case
  proof (cases "fst a = k")
    case True
    with Cons.prems have "k \<notin> fst ` set (filter P kvs)" by auto
    then have "map_of (filter P kvs) k = None" by (simp add: map_of_eq_None_iff)
    with True show ?thesis by (cases a) auto
  next
    case False
    with Cons show ?thesis by (cases a) auto
  qed
qed

lemma Number_attrs_distinct:
  assumes "widget_cls w = Number" and "distinct (map fst (widget_dict w))"
  shows "\<exists>kvs. attrs w = Inr kvs \<and> distinct (map fst kvs)
           \<and> map_of kvs ''min'' = map_of (widget_dict w) ''min''
           \<and> map_of kvs ''max'' = map_of (widget_dict w) ''max''"
proof -
  let ?kept = "filter (\<lambda>kv. \<not> List.member (exclude_attrs Number) (fst kv)) (widget_dict w)"
  have d: "distinct (map fst ?kept)" using assms(2) by (simp add: distinct_map_filter)
  have f: "map_of ?kept k = map_of (widget_dict w) k" if "k = ''min'' \<or> k = ''max''" for k
    using map_of_filter_key [of "\<lambda>k. \<not> List.member (exclude_attrs Number) k" k "widget_dict w"] that
    by auto
  have u: "map_of [(''class'', c), (''value'', t)] k = None" if "k = ''min'' \<or> k = ''max''"
    for c t k using that by auto
  show ?thesis
    using assms(1) f distinct_dict_update [OF d]
    by (simp add: attrs_def Widget_attrs_def format_value_def Widget_format_value_def
        dict_update_absent [OF u])
qed

lemma emitted_bound:
  assumes "distinct (map fst kvs)" and "map_of kvs k = Some (bound_attr b)"
  shows "map_of (emitted kvs) k = (if b = VNone then None else Some (VStr (py_str b)))"
  using assms(2)
  by (simp add: emitted_def map_of_filter_distinct [OF assms(1)] bound_attr_def)

section \<open>Claims\<close>

text \<open>
  C10. A declared field whose name is absent from the data snapshot \<open>_model_data\<close>
  (which is the case for a form built with no initial value and raw data without that
  key, before any validation) has its declared default as \<open>value_of\<close>, and so as the
  current value of a \<open>BoundField\<close> for it; the default is \<open>None\<close> when none is declared.
  The lookup returns, it does not raise.
\<close>

theorem value_of_absent_default:
  assumes "cfg_model (config s) = Inr m"
    and "map_of (model_fields m) name = Some f"
    and "map_of (f_model_data s) name = None"
  shows "value_of s name = Inr (field_default f)
     \<and> (\<forall>self. field_name (bf_field self) = name \<longrightarrow>
           BoundField_value s self = Inr (field_default f))"
  using assms by (simp add: value_of_def BoundField_value_def)

theorem value_of_absent_default_witness:
  "BaseForm_init PersonForm_config None None = Inr (person_form None)
   \<and> cfg_model (config (person_form None)) = Inr Person
   \<and> map_of (model_fields Person) ''age'' = Some age_field
   \<and> map_of (f_model_data (person_form None)) ''age'' = None
   \<and> value_of (person_form None) ''age'' = Inr (VInt 18)
   \<and> BoundField_value (person_form None) \<lparr> bf_field = age_field, bf_widget = None \<rparr>
       = Inr (VInt 18)
   \<and> value_of (person_form None) ''name'' = Inr VNone"
proof -
  have c: "cfg_model (config (person_form None)) = Inr Person"
    by (simp add: person_form_def cfg_PersonForm)
  have a: "map_of (model_fields Person) ''age'' = Some age_field"
    and n: "map_of (model_fields Person) ''name'' = Some name_field"
    by (simp_all add: Person_def Person_fields_def)
  have d: "map_of (f_model_data (person_form None)) ''age'' = None"
    "map_of (f_model_data (person_form None)) ''name'' = None"
    by (simp_all add: person_form_def)
  show ?thesis
    using value_of_absent_default [OF c a d(1)] value_of_absent_default [OF c n d(2)]
      c a d person_form_init [of None]
    by (simp add: age_field_def name_field_def)
qed

text \<open>
  C9. When an initial value is given that is no instance of the schema class
  \<open>Config.model\<close>, the constructor raises \<open>ValueError\<close> and no form comes to exist, so
  no validation outcome is ever stored for it. A form the constructor does return is
  unbound (neither \<open>_error\<close> nor \<open>_model\<close> set), its initial value, if any, is an instance
  of the schema class, and no later call replaces that initial value: the check is made
  once.
\<close>

theorem init_checks_initial:
  "(cfg_model cfg = Inr m \<and> \<not> isinstance i m \<longrightarrow>
      BaseForm_init cfg d (Some i) = Inl (ValueError ''Initial must be of type Config.model''))
   \<and> (BaseForm_init cfg d initial = Inr s \<longrightarrow>
        f_error s = None \<and> f_model s = None
        \<and> (\<forall>cs. f_initial (steps s cs) = initial)
        \<and> (\<forall>i. initial = Some i \<longrightarrow> (\<exists>m. cfg_model cfg = Inr m \<and> isinstance i m)))"
  by (auto simp: BaseForm_init_def Let_def steps_keeps split: option.splits sum.splits if_splits)

theorem init_checks_initial_witness:
  "cfg_model PersonForm_config = Inr Person \<and> \<not> isinstance stranger Person
   \<and> BaseForm_init PersonForm_config None (Some stranger) =
        Inl (ValueError ''Initial must be of type Config.model'')
   \<and> BaseForm_init PersonForm_config None (Some al) = Inr al_form
   \<and> f_error al_form = None \<and> f_model al_form = None
   \<and> f_initial (steps al_form [CallIsValid, CallErrors]) = Some al
   \<and> isinstance al Person"
proof -
  have n: "\<not> isinstance stranger Person" and y: "isinstance al Person"
    by (simp_all add: isinstance_def stranger_def al_def Person_def)
  have s: "BaseForm_init PersonForm_config None (Some al) = Inr al_form"
    using y by (simp add: BaseForm_init_def cfg_PersonForm al_form_def get_model_data_def
        dict_update_def al_def)
  from init_checks_initial [of PersonForm_config Person stranger None "Some al" al_form] n y s
  show ?thesis
    by (auto simp: cfg_PersonForm)
qed

text \<open>
  C2. Widget-type resolution looks the field name up in the configuration's
  \<open>widget_classes\<close> first and returns the override when there is one. Only without an
  override does it infer from the type, testing \<open>bool\<close> before \<open>int\<close>/\<open>float\<close>: a field of
  type \<open>bool\<close> (which is a subclass of \<open>int\<close>) resolves to \<open>Checkbox\<close>, any other subclass
  of \<open>int\<close> or \<open>float\<close> to \<open>Number\<close>. So a boolean field resolves to \<open>Number\<close> only when the
  configuration says so by name, and an integer field with the override \<open>Checkbox\<close>
  resolves to \<open>Checkbox\<close>.
\<close>

theorem widget_class_override_first:
  assumes "cfg_widget_classes (config s) = Inr wc"
  shows "(\<forall>c. map_of wc (field_name (bf_field self)) = Some c \<longrightarrow> widget_class s self = Inr c)
   \<and> (map_of wc (field_name (bf_field self)) = None \<longrightarrow>
        issubclass (field_type (bf_field self)) [''bool''] = Inr True \<longrightarrow>
        widget_class s self = Inr Checkbox)
   \<and> (map_of wc (field_name (bf_field self)) = None \<longrightarrow>
        issubclass (field_type (bf_field self)) [''bool''] = Inr False \<longrightarrow>
        issubclass (field_type (bf_field self)) [''int'', ''float''] = Inr True \<longrightarrow>
        widget_class s self = Inr Number)
   \<and> (issubclass (field_type (bf_field self)) [''bool''] = Inr True \<longrightarrow>
        widget_class s self = Inr Number \<longrightarrow>
        map_of wc (field_name (bf_field self)) = Some Number)"
  using assms by (auto simp: widget_class_def Let_def split: option.splits)

theorem widget_class_override_first_witness:
  "cfg_widget_classes (config check_form) = Inr [(''age'', Checkbox)]
   \<and> issubclass (field_type age_field) [''bool''] = Inr False
   \<and> issubclass (field_type age_field) [''int'', ''float''] = Inr True
   \<and> widget_class check_form \<lparr> bf_field = age_field, bf_widget = None \<rparr> = Inr Checkbox
   \<and> widget_class (person_form None) \<lparr> bf_field = age_field, bf_widget = None \<rparr> = Inr Number
   \<and> issubclass (field_type active_field) [''bool''] = Inr True
   \<and> issubclass (field_type active_field) [''int'', ''float''] = Inr True
   \<and> widget_class check_form \<lparr> bf_field = active_field, bf_widget = None \<rparr> = Inr Checkbox"
proof -
  have c: "cfg_widget_classes (config check_form) = Inr [(''age'', Checkbox)]"
    by (simp add: check_form_def cfg_CheckForm)
  have p: "cfg_widget_classes (config (person_form None)) = Inr []"
    by (simp add: person_form_def cfg_PersonForm)
  have t: "issubclass (field_type age_field) [''bool''] = Inr False"
    "issubclass (field_type age_field) [''int'', ''float''] = Inr True"
    "issubclass (field_type active_field) [''bool''] = Inr True"
    "issubclass (field_type active_field) [''int'', ''float''] = Inr True"
    by (simp_all add: issubclass_def age_field_def active_field_def conint_def py_bool_t_def)
  show ?thesis
    using widget_class_override_first [OF c, of "\<lparr> bf_field = age_field, bf_widget = None \<rparr>"]
      widget_class_override_first [OF c, of "\<lparr> bf_field = active_field, bf_widget = None \<rparr>"]
      widget_class_override_first [OF p, of "\<lparr> bf_field = age_field, bf_widget = None \<rparr>"]
      c t
    by (simp add: age_field_def active_field_def)
qed

text \<open>
  C1. Let \<open>clean\<close> have run on a form to a terminal outcome: it returned, or it raised
  the \<open>ValidationError\<close>. Then exactly one of \<open>_model\<close> and \<open>_error\<close> is set, and after
  any further calls whatever (validation again, \<open>data\<close>, \<open>errors\<close>, \<open>is_valid\<close>, binding
  fields, building widgets, the caller changing the raw data) both are as they were:
  the form never is unbound again. Every later \<open>clean\<close> gives the same outcome and leaves
  the state untouched, and it does so whatever the configuration and its model
  constructor would now answer, so nothing is validated again; \<open>data\<close>, \<open>is_valid\<close> and
  \<open>errors\<close> give the stored outcome too.
\<close>

theorem validate_idempotent:
  assumes "clean s = (r, s')"
    and "r = Inr () \<or> (\<exists>es. r = Inl (ValidationError es))"
    and "f_error s = None \<or> f_model s = None"
  shows "((f_error s' = None) \<noteq> (f_model s' = None))
     \<and> (\<forall>cs c. f_error (steps s' cs) = f_error s' \<and> f_model (steps s' cs) = f_model s'
            \<and> clean (steps s' cs) = (r, steps s' cs)
            \<and> clean ((steps s' cs)\<lparr> config := c \<rparr>) = (r, (steps s' cs)\<lparr> config := c \<rparr>)
            \<and> data (steps s' cs) =
                ((case r of Inl e \<Rightarrow> Inl e | Inr _ \<Rightarrow> Inr (f_model s')), steps s' cs)
            \<and> is_valid (steps s' cs) = (Inr (r = Inr ()), steps s' cs)
            \<and> errors (steps s' cs) = (fst (errors s'), steps s' cs))"
proof -
  from clean_first [OF assms]
  have b: "bound s'" and o: "stored_outcome s' = r"
    and x: "(f_error s' = None) \<noteq> (f_model s' = None)" by simp_all
  have "f_error (steps s' cs) = f_error s' \<and> f_model (steps s' cs) = f_model s'
        \<and> clean (steps s' cs) = (r, steps s' cs)
        \<and> clean ((steps s' cs)\<lparr> config := c \<rparr>) = (r, (steps s' cs)\<lparr> config := c \<rparr>)
        \<and> data (steps s' cs) =
            ((case r of Inl e \<Rightarrow> Inl e | Inr _ \<Rightarrow> Inr (f_model s')), steps s' cs)
        \<and> is_valid (steps s' cs) = (Inr (r = Inr ()), steps s' cs)
        \<and> errors (steps s' cs) = (fst (errors s'), steps s' cs)" for cs c
  proof -
    let ?t = "steps s' cs"
    from steps_bound [OF b, of cs]
    have k: "f_error ?t = f_error s'" "f_model ?t = f_model s'" by simp_all
    with b have bt: "bound ?t" by (simp add: bound_def)
    from k o have ot: "stored_outcome ?t = r" by (simp add: stored_outcome_def)
    show ?thesis
      using k ot clean_bound [OF bt] clean_bound_any_config [OF bt, of c] data_bound [OF bt]
        is_valid_bound [OF bt] errors_bound [OF bt] errors_bound [OF b]
      by (simp split: sum.splits)
  qed
  with x show ?thesis by blast
qed

theorem validate_idempotent_witness:
  "clean (person_form (Some bad_data)) = (Inl (ValidationError [too_old]), bad_form)
   \<and> f_error (person_form (Some bad_data)) = None
   \<and> f_error bad_form = Some [too_old] \<and> f_model bad_form = None
   \<and> clean (steps bad_form [CallSetData (Some good_data), CallIsValid]) =
        (Inl (ValidationError [too_old]), steps bad_form [CallSetData (Some good_data), CallIsValid])
   \<and> is_valid (steps bad_form [CallSetData (Some good_data)]) =
        (Inr False, steps bad_form [CallSetData (Some good_data)])
   \<and> clean (person_form (Some good_data)) = (Inr (), good_form)
   \<and> f_error good_form = None \<and> f_model good_form = Some al
   \<and> data (steps good_form [CallSetData (Some bad_data), CallClean]) =
        (Inr (Some al), steps good_form [CallSetData (Some bad_data), CallClean])"
proof -
  have u: "f_error (person_form d) = None \<or> f_model (person_form d) = None" for d
    by (simp add: person_form_def)
  have t: "Inl (ValidationError [too_old]) = Inr () \<or>
           (\<exists>es. (Inl (ValidationError [too_old]) :: exn + unit) = Inl (ValidationError es))"
    "(Inr () :: exn + unit) = Inr () \<or> (\<exists>es. (Inr () :: exn + unit) = Inl (ValidationError es))"
    by simp_all
  from validate_idempotent [OF clean_bad_form t(1) u] validate_idempotent [OF clean_good_form t(2) u]
  show ?thesis
    by (simp add: clean_bad_form clean_good_form)
       (simp add: bad_form_def good_form_def person_form_def)
qed

text \<open>
  C4. \<open>is_valid\<close> returns \<open>True\<close> exactly when \<open>errors\<close> returns \<open>None\<close>. Where a
  validation failure carries at least one violation (pydantic raises \<open>ValidationError\<close>
  only with a non-empty list), \<open>errors\<close> never returns an empty mapping either, so that
  \<open>is_valid\<close> is true exactly when \<open>errors\<close> is empty or absent. When \<open>is_valid\<close>
  returns \<open>False\<close>, \<open>errors\<close> does not return \<open>None\<close>; and the answers are the same
  whichever of the two is called first.
\<close>

theorem is_valid_iff_no_errors:
  "((fst (is_valid s) = Inr True) = (fst (errors s) = Inr None))
   \<and> ((\<forall>es. fst (clean s) = Inl (ValidationError es) \<longrightarrow> es \<noteq> []) \<longrightarrow>
          fst (errors s) \<noteq> Inr (Some []))
   \<and> (fst (is_valid s) = Inr False \<longrightarrow> fst (errors s) \<noteq> Inr None)
   \<and> fst (errors (snd (is_valid s))) = fst (errors s)
   \<and> fst (is_valid (snd (errors s))) = fst (is_valid s)"
proof (cases "clean s")
  case (Pair r s')
  show ?thesis
  proof (cases r)
    case (Inr u)
    with Pair have c: "clean s = (Inr u, s')" by simp
    from clean_ok_stored [OF c] have c': "clean s' = (Inr (), s')" .
    show ?thesis
      by (simp add: is_valid_ok [OF c] errors_ok [OF c] is_valid_ok [OF c'] errors_ok [OF c'])
  next
    case (Inl e)
    show ?thesis
    proof (cases "\<exists>es. e = ValidationError es")
      case True
      then obtain es where e: "e = ValidationError es" by blast
      with Pair Inl have c: "clean s = (Inl (ValidationError es), s')" by simp
      from clean_validation_stored [OF c] have c': "clean s' = (Inl (ValidationError es), s')"
        by simp
      have l: "es \<noteq> [] \<Longrightarrow> errors_loop es [] \<noteq> Inr []"
        using errors_loop_nonempty [of es "[]" "[]"] by auto
      show ?thesis
        using l
        by (auto simp add: c is_valid_invalid [OF c] errors_invalid [OF c]
            is_valid_invalid [OF c'] errors_invalid [OF c'] split: sum.splits)
    next
      case False
      with Pair Inl have c: "clean s = (Inl e, s')" and n: "\<forall>es. e \<noteq> ValidationError es"
        by simp_all
      from clean_other_unchanged [OF c n] c have c': "clean s' = (Inl e, s')" by simp
      show ?thesis
        by (simp add: is_valid_other [OF c n] errors_other [OF c n] is_valid_other [OF c' n]
            errors_other [OF c' n])
    qed
  qed
qed

theorem is_valid_iff_no_errors_witness:
  "fst (clean (person_form (Some bad_data))) = Inl (ValidationError [too_old])
   \<and> fst (is_valid (person_form (Some bad_data))) = Inr False
   \<and> fst (errors (person_form (Some bad_data))) =
        Inr (Some [(LocStr ''age'', [Exc PydanticValueError ''value is greater than 120''])])
   \<and> fst (clean (person_form (Some good_data))) = Inr ()
   \<and> fst (is_valid (person_form (Some good_data))) = Inr True
   \<and> fst (errors (person_form (Some good_data))) = Inr None"
proof -
  have b: "\<forall>es. fst (clean (person_form (Some bad_data))) = Inl (ValidationError es) \<longrightarrow> es \<noteq> []"
    and g: "\<forall>es. fst (clean (person_form (Some good_data))) = Inl (ValidationError es) \<longrightarrow> es \<noteq> []"
    by (simp_all add: clean_bad_form clean_good_form)
  have e: "fst (errors (person_form (Some bad_data))) =
        Inr (Some [(LocStr ''age'', [Exc PydanticValueError ''value is greater than 120''])])"
    by (simp add: errors_def clean_bad_form) (simp add: bad_form_def too_old_def setdefault_append_def)
  have v: "fst (is_valid (person_form (Some good_data))) = Inr True"
    by (simp add: is_valid_def clean_good_form)
  from is_valid_iff_no_errors [of "person_form (Some bad_data)"]
    is_valid_iff_no_errors [of "person_form (Some good_data)"] b g e v
  show ?thesis
    by (simp add: clean_bad_form clean_good_form is_valid_def)
qed

text \<open>
  C5 fails on the code. For the age \<open>"abc"\<close> the model reports that the value is not a
  valid integer, a type error. \<open>clean\<close> raises the \<open>ValidationError\<close> and \<open>is_valid\<close>
  returns \<open>False\<close>, but \<open>errors\<close> does not return the violations regrouped by field: its
  own assertion that every violation is a \<open>PydanticValueError\<close> fails, and it raises
  \<open>AssertionError\<close>. (For violations that all are value errors the regrouping is the
  claimed one: \<open>errors_regroups_value_errors\<close>.)
\<close>

theorem errors_raises_on_type_error:
  "clean (person_form (Some abc_data)) = (Inl (ValidationError [not_int]), abc_form)
   \<and> errors (person_form (Some abc_data)) = (Inl AssertionError, abc_form)
   \<and> is_valid (person_form (Some abc_data)) = (Inr False, abc_form)"
  by (simp add: errors_invalid [OF clean_abc_form] is_valid_invalid [OF clean_abc_form] clean_abc_form)
     (simp add: not_int_def)

text \<open>
  C3 fails on the code. A \<open>Date\<close> widget holding the date 2024-05-17 does not format it:
  \<open>format_value\<close>, and with it \<open>attrs\<close>, raises \<open>TypeError\<close>, because \<open>strftime\<close> is
  handed the builtin \<open>format\<close> and not the widget's field \<open>format\<close>. With the field, the
  date widget would give \<open>2024-05-17\<close>; the format declared for \<open>DateTime\<close> has a brace
  where the colon should be and would give \<open>2024-05-17T09{30:05\<close>.
\<close>

theorem date_widget_format_value_raises:
  "widget_new Date [(''name'', VStr ''born''), (''value'', VDate 2024 5 17)] = Inr date_widget
   \<and> format_value date_widget (VDate 2024 5 17) = Inl (TypeError ''strftime() argument 1 must be str'')
   \<and> attrs date_widget = Inl (TypeError ''strftime() argument 1 must be str'')
   \<and> strftime (VDate 2024 5 17) (wget date_widget ''format'') = Inr ''2024-05-17''
   \<and> map_of (widget_fields DateTime) ''format'' =
        Some (''format'', StrField, Some (VStr ''%Y-%m-%dT%H{%M:%S''))
   \<and> strftime (VDateTime 2024 5 17 9 30 5) (VStr ''%Y-%m-%dT%H{%M:%S'') = Inr ''2024-05-17T09{30:05''"
  by (simp add: widget_new_def populate_def validate_field_def str_validator_def
      Strftime_fields_def Input_fields_def Widget_fields_def date_widget_def
      format_value_def StrftimeMixin_format_value_def strftime_def wget_def attrs_def Widget_attrs_def
      directive_def zpad_def digits.simps)

text \<open>
  C6. When \<open>bind_field(x)\<close> returns an object, every later \<open>bind_field(x)\<close> on the
  form, after any other calls, returns the object at the same address and creates
  nothing. The cache has at most one entry for a field name. Once the widget of that
  bound field has been built, every later access to it returns that same widget, so the
  same attributes, whatever other calls came between, the caller changing the raw data
  among them.
\<close>

theorem bind_field_same_object:
  assumes "bind_field s x = (Inr r, s')"
    and "distinct (map fst (bind_cache s))"
  shows "(\<forall>cs. bind_field (steps s' cs) x = (Inr r, steps s' cs)
            \<and> distinct (map fst (bind_cache (steps s' cs))))
     \<and> (\<forall>cs w t cs'. BoundField_widget (steps s' cs) r = (Inr w, t) \<longrightarrow>
            BoundField_widget (steps t cs') r = (Inr w, steps t cs'))"
proof -
  from bind_field_result [OF assms(1)] have e: "map_of (bind_cache s') x = Some r" .
  from bind_field_distinct [OF assms(2), of x] assms(1)
  have d: "distinct (map fst (bind_cache s'))" by simp
  have a: "bind_field (steps s' cs) x = (Inr r, steps s' cs)" for cs
    by (rule bind_field_hit, rule steps_induct_inv [where P = "\<lambda>s. map_of (bind_cache s) x = Some r"])
       (simp_all add: e step_cache_entry)
  have b: "distinct (map fst (bind_cache (steps s' cs)))" for cs
    by (rule steps_induct_inv [where P = "\<lambda>s. distinct (map fst (bind_cache s))"])
       (simp_all add: d step_cache_distinct)
  have c: "BoundField_widget (steps t cs') r = (Inr w, steps t cs')"
    if "BoundField_widget (steps s' cs) r = (Inr w, t)" for cs w t cs'
  proof -
    from widget_result [OF that] have "r < length (heap t) \<and> bf_widget (heap t ! r) = Some w" .
    then have "r < length (heap (steps t cs')) \<and> bf_widget (heap (steps t cs') ! r) = Some w"
      by (rule steps_induct_inv [where P = "\<lambda>s. r < length (heap s) \<and> bf_widget (heap s ! r) = Some w"])
         (simp add: step_widget_slot)
    then show ?thesis by (simp add: widget_hit)
  qed
  from a b c show ?thesis by blast
qed

theorem bind_field_same_object_witness:
  "bind_field (person_form (Some good_data)) ''age'' = (Inr 0, bound_form)
   \<and> distinct (map fst (bind_cache (person_form (Some good_data))))
   \<and> bind_field (steps bound_form [CallSetData (Some bad_data), CallBindField ''name'']) ''age'' =
        (Inr 0, steps bound_form [CallSetData (Some bad_data), CallBindField ''name''])
   \<and> BoundField_widget bound_form 0 = (Inr age_widget, widget_form)
   \<and> BoundField_widget (steps widget_form [CallSetData (Some bad_data), CallClean]) 0 =
        (Inr age_widget, steps widget_form [CallSetData (Some bad_data), CallClean])"
proof -
  have d: "distinct (map fst (bind_cache (person_form (Some good_data))))"
    by (simp add: person_form_def)
  have w: "BoundField_widget (steps bound_form []) 0 = (Inr age_widget, widget_form)"
    by (simp add: steps_def widget_age)
  from bind_field_same_object [OF bind_age d] w d
  show ?thesis
    by (simp add: bind_age widget_age)
qed

text \<open>
  C7. Take a field that resolves to a \<open>Number\<close> widget, in a configuration whose
  per-field extra attributes (the override of the specification, which wins on a key
  conflict) name neither \<open>min\<close> nor \<open>max\<close> for it, and let the widget be built. Then
  \<open>attrs\<close> returns, and \<open>min\<close> is the text of the type's inclusive lower bound \<open>ge\<close>,
  \<open>max\<close> the text of its upper bound \<open>le\<close>; these are the attributes that reach the
  markup. Where the type places no bound, the attribute is absent: \<open>additional_kwargs\<close>
  passes no such key, the widget holds \<open>None\<close> for it, and no such attribute is among
  those the renderer emits.
\<close>

theorem number_widget_bounds:
  assumes "widget_class s self = Inr Number"
    and "cfg_widget_kwargs (config s) = Inr wk"
    and "map_of (case map_of wk (field_name (bf_field self)) of None \<Rightarrow> [] | Some extra \<Rightarrow> extra)
           ''min'' = None"
    and "map_of (case map_of wk (field_name (bf_field self)) of None \<Rightarrow> [] | Some extra \<Rightarrow> extra)
           ''max'' = None"
    and "make_widget s self = Inr w"
  shows "(\<exists>kvs. attrs w = Inr kvs
           \<and> map_of kvs ''min'' = Some (bound_attr (getattr_type (field_type (bf_field self)) ''ge''))
           \<and> map_of kvs ''max'' = Some (bound_attr (getattr_type (field_type (bf_field self)) ''le''))
           \<and> map_of (emitted kvs) ''min'' =
               (if getattr_type (field_type (bf_field self)) ''ge'' = VNone then None
                else Some (VStr (py_str (getattr_type (field_type (bf_field self)) ''ge''))))
           \<and> map_of (emitted kvs) ''max'' =
               (if getattr_type (field_type (bf_field self)) ''le'' = VNone then None
                else Some (VStr (py_str (getattr_type (field_type (bf_field self)) ''le'')))))
     \<and> map_of (additional_kwargs Number (bf_field self)) ''min'' =
         (if getattr_type (field_type (bf_field self)) ''ge'' = VNone then None
          else Some (VStr (py_str (getattr_type (field_type (bf_field self)) ''ge''))))
     \<and> map_of (additional_kwargs Number (bf_field self)) ''max'' =
         (if getattr_type (field_type (bf_field self)) ''le'' = VNone then None
          else Some (VStr (py_str (getattr_type (field_type (bf_field self)) ''le''))))"
proof -
  from assms(1,5) obtain kwargs where k: "widget_kwargs s self Number = Inr kwargs"
    and n: "widget_new Number kwargs = Inr w"
    by (auto simp: make_widget_def split: sum.splits)
  have mn: "map_of kwargs ''min'' =
      (if getattr_type (field_type (bf_field self)) ''ge'' = VNone then None
       else Some (VStr (py_str (getattr_type (field_type (bf_field self)) ''ge''))))"
    using widget_kwargs_bounds [OF k assms(2) assms(3)] by (simp add: Number_additional_kwargs_lookup)
  have mx: "map_of kwargs ''max'' =
      (if getattr_type (field_type (bf_field self)) ''le'' = VNone then None
       else Some (VStr (py_str (getattr_type (field_type (bf_field self)) ''le''))))"
    using widget_kwargs_bounds [OF k assms(2) assms(4)] by (simp add: Number_additional_kwargs_lookup)
  from widget_new_Number [OF n mn Number_fields_bounds(1)]
    widget_new_Number [OF n mx Number_fields_bounds(2)]
  have c: "widget_cls w = Number"
    and dn: "map_of (widget_dict w) ''min'' =
               Some (bound_attr (getattr_type (field_type (bf_field self)) ''ge''))"
    and dx: "map_of (widget_dict w) ''max'' =
               Some (bound_attr (getattr_type (field_type (bf_field self)) ''le''))"
    by simp_all
  from Number_attrs_distinct [OF c widget_new_Number_distinct [OF n]] dn dx
  obtain kvs where a: "attrs w = Inr kvs" and d: "distinct (map fst kvs)"
    and kn: "map_of kvs ''min'' =
               Some (bound_attr (getattr_type (field_type (bf_field self)) ''ge''))"
    and kx: "map_of kvs ''max'' =
               Some (bound_attr (getattr_type (field_type (bf_field self)) ''le''))"
    by auto
  from a kn kx emitted_bound [OF d kn] emitted_bound [OF d kx]
  have "\<exists>kvs. attrs w = Inr kvs
           \<and> map_of kvs ''min'' = Some (bound_attr (getattr_type (field_type (bf_field self)) ''ge''))
           \<and> map_of kvs ''max'' = Some (bound_attr (getattr_type (field_type (bf_field self)) ''le''))
           \<and> map_of (emitted kvs) ''min'' =
               (if getattr_type (field_type (bf_field self)) ''ge'' = VNone then None
                else Some (VStr (py_str (getattr_type (field_type (bf_field self)) ''ge''))))
           \<and> map_of (emitted kvs) ''max'' =
               (if getattr_type (field_type (bf_field self)) ''le'' = VNone then None
                else Some (VStr (py_str (getattr_type (field_type (bf_field self)) ''le''))))"
    by blast
  then show ?thesis
    by (simp add: additional_kwargs_def Number_additional_kwargs_lookup)
qed

theorem number_widget_bounds_witness:
  "widget_class good_form \<lparr> bf_field = age_field, bf_widget = None \<rparr> = Inr Number
   \<and> cfg_widget_kwargs (config good_form) = Inr []
   \<and> make_widget good_form \<lparr> bf_field = age_field, bf_widget = None \<rparr> = Inr age_widget
   \<and> (\<exists>kvs. attrs age_widget = Inr kvs \<and> map_of kvs ''min'' = Some (VStr ''0'')
             \<and> map_of kvs ''max'' = Some (VStr ''120'')
             \<and> map_of (emitted kvs) ''min'' = Some (VStr ''0'')
             \<and> map_of (emitted kvs) ''max'' = Some (VStr ''120''))
   \<and> widget_class good_form \<lparr> bf_field = visits_field, bf_widget = None \<rparr> = Inr Number
   \<and> make_widget good_form \<lparr> bf_field = visits_field, bf_widget = None \<rparr> = Inr visits_widget
   \<and> (\<exists>kvs. attrs visits_widget = Inr kvs \<and> map_of kvs ''min'' = Some VNone
             \<and> map_of kvs ''max'' = Some VNone
             \<and> map_of (emitted kvs) ''min'' = None \<and> map_of (emitted kvs) ''max'' = None)
   \<and> map_of (additional_kwargs Number visits_field) ''min'' = None
   \<and> render_attrs age_widget =
        Inr (''name='' @ quoted ''f_age'' @ '' id='' @ quoted ''id_f_age'' @
             '' type='' @ quoted ''number'' @ '' min='' @ quoted ''0'' @
             '' max='' @ quoted ''120'' @ '' value='' @ quoted ''30'')
   \<and> render_attrs visits_widget =
        Inr (''name='' @ quoted ''f_visits'' @ '' id='' @ quoted ''id_f_visits'' @
             '' type='' @ quoted ''number'' @ '' value='' @ quoted ''0'')"
proof -
  have c: "widget_class good_form \<lparr> bf_field = age_field, bf_widget = None \<rparr> = Inr Number"
    "widget_class good_form \<lparr> bf_field = visits_field, bf_widget = None \<rparr> = Inr Number"
    by (simp_all add: good_form_def person_form_def cfg_PersonForm widget_class_def issubclass_def
        age_field_def conint_def visits_field_def py_int_t_def)
  have k: "cfg_widget_kwargs (config good_form) = Inr []"
    by (simp add: good_form_def person_form_def cfg_PersonForm)
  have e: "map_of (case map_of [] (field_name (bf_field x)) of None \<Rightarrow> [] | Some extra \<Rightarrow> extra)
             m = (None :: pyval option)" for x :: BoundField and m :: string
    by simp
  have ak: "map_of (additional_kwargs Number visits_field) ''min'' = None"
    by (simp add: additional_kwargs_def Number_additional_kwargs_lookup visits_field_def
        py_int_t_def getattr_type_def)
  have r: "render_attrs age_widget =
        Inr (''name='' @ quoted ''f_age'' @ '' id='' @ quoted ''id_f_age'' @
             '' type='' @ quoted ''number'' @ '' min='' @ quoted ''0'' @
             '' max='' @ quoted ''120'' @ '' value='' @ quoted ''30'')"
    "render_attrs visits_widget =
        Inr (''name='' @ quoted ''f_visits'' @ '' id='' @ quoted ''id_f_visits'' @
             '' type='' @ quoted ''number'' @ '' value='' @ quoted ''0'')"
    by (simp_all add: render_attrs_def emitted_def age_widget_def visits_widget_def attrs_defs quoted_def)
  have a: "\<exists>kvs. attrs age_widget = Inr kvs \<and> map_of kvs ''min'' = Some (VStr ''0'')
             \<and> map_of kvs ''max'' = Some (VStr ''120'')
             \<and> map_of (emitted kvs) ''min'' = Some (VStr ''0'')
             \<and> map_of (emitted kvs) ''max'' = Some (VStr ''120'')"
    using number_widget_bounds [OF c(1) k e e make_age_widget_good]
    by (simp add: bound_attr_def age_field_def conint_def getattr_type_def str_int_def
        digits.simps)
  have v: "\<exists>kvs. attrs visits_widget = Inr kvs \<and> map_of kvs ''min'' = Some VNone
             \<and> map_of kvs ''max'' = Some VNone
             \<and> map_of (emitted kvs) ''min'' = None \<and> map_of (emitted kvs) ''max'' = None"
    using number_widget_bounds [OF c(2) k e e make_visits_widget]
    by (simp add: bound_attr_def visits_field_def py_int_t_def getattr_type_def)
  show ?thesis
    using a v by (simp add: c k make_age_widget_good make_visits_widget r ak)
qed

text \<open>
  C8. Let \<open>a\<close> be the \<open>__config__\<close> of a form class \<open>A\<close>, a class whose resolution
  order ends in \<open>BaseConfig\<close>, and let \<open>B\<close> extend \<open>A\<close>; the classes created get fresh
  identities. If \<open>B\<close> declares no \<open>Config\<close>, every key of its configuration resolves as
  in \<open>a\<close>. If \<open>B\<close> declares a \<open>Config\<close> with the namespace \<open>d\<close>, a key that \<open>d\<close> sets
  resolves to the value in \<open>d\<close>, and every other key resolves as in \<open>a\<close>: the
  most-derived declaration wins key by key. The witness is the case of the claim: \<open>A\<close>
  sets the prefix \<open>a_\<close>; \<open>B\<close> has the prefix \<open>a_\<close> without a \<open>Config\<close> and \<open>b_\<close> with
  \<open>prefix = "b_"\<close>, and keeps the model of \<open>A\<close>.
\<close>

theorem config_inheritance_per_key:
  assumes "mro a = Some (a # pre @ [BaseConfig])"
    and "distinct (map cid (a # pre @ [BaseConfig]))"
    and "n \<notin> cid ` set (a # pre @ [BaseConfig])"
    and "i \<notin> cid ` set (a # pre @ [BaseConfig])"
    and "i \<noteq> n"
  shows "FormMetaclass_new True n [FormBase a] None = Inr (Cls n [] [a, BaseConfig], Suc n)
     \<and> (\<forall>k. py_getattr (Cls n [] [a, BaseConfig]) k = py_getattr a k)
     \<and> FormMetaclass_new True n [FormBase a] (Some (Cls i d [])) =
         Inr (Cls (Suc n) [] [Cls i d [], Cls n [] [a, BaseConfig]], Suc (Suc n))
     \<and> (\<forall>k. py_getattr (Cls (Suc n) [] [Cls i d [], Cls n [] [a, BaseConfig]]) k =
              (case map_of d k of Some v \<Rightarrow> Inr v | None \<Rightarrow> py_getattr a k))"
proof -
  let ?x = "Cls n [] [a, BaseConfig]"
  let ?la = "a # pre @ [BaseConfig]"
  have ne: "cid a \<noteq> cid BaseConfig" using assms(2) by auto
  have mx: "mro ?x = Some (?x # ?la)" by (rule mro_inherited [OF assms(1,2)])
  have dx: "distinct (map cid (?x # ?la))" using assms(2,3) by auto
  have ix: "i \<notin> cid ` set (?x # ?la)" using assms(4,5) by auto
  have my: "mro (Cls (Suc n) [] [Cls i d [], ?x]) =
              Some (Cls (Suc n) [] [Cls i d [], ?x] # Cls i d [] # ?x # ?la)"
    by (rule mro_overridden [OF mx dx ix])
  have 1: "inherit_config n a BaseConfig = Inr ?x"
    using ne mx by (simp add: inherit_config_def py_type_def del: mro.simps)
  have 2: "inherit_config (Suc n) (Cls i d []) ?x = Inr (Cls (Suc n) [] [Cls i d [], ?x])"
    using assms(5) my by (simp add: inherit_config_def py_type_def del: mro.simps)
  have g1: "py_getattr ?x k = py_getattr a k" for k
    by (rule getattr_inherited [OF assms(1,2)])
  have g2: "py_getattr (Cls (Suc n) [] [Cls i d [], ?x]) k =
              (case map_of d k of Some v \<Rightarrow> Inr v | None \<Rightarrow> py_getattr a k)" for k
    using getattr_overridden [OF mx dx ix, of "Suc n" d k] g1 [of k]
    by (simp split: option.splits)
  show ?thesis
    using g1 g2 by (simp add: FormMetaclass_new_def 1 2)
qed

theorem config_inheritance_per_key_witness:
  "FormMetaclass_new True 21 [FormBase Form_config] (Some A_Config) = Inr (A_config, 23)
   \<and> cfg_prefix A_config = Inr ''a_''
   \<and> FormMetaclass_new True 24 [FormBase A_config] None = Inr (B_config_inherited, 25)
   \<and> cfg_prefix B_config_inherited = Inr ''a_''
   \<and> FormMetaclass_new True 24 [FormBase A_config] (Some B_Config) = Inr (B_config_overridden, 26)
   \<and> cfg_prefix B_config_overridden = Inr ''b_''
   \<and> cfg_model B_config_overridden = Inr Person
   \<and> cfg_widget_classes B_config_overridden = Inr []
   \<and> prefix_name ((person_form None)\<lparr> config := B_config_inherited \<rparr>) ''age'' = Inr ''a_age''
   \<and> prefix_name ((person_form None)\<lparr> config := B_config_overridden \<rparr>) ''age'' = Inr ''b_age''"
proof -
  have d: "distinct (map cid (A_config # [A_Config, Cls 21 [] [Form_config, BaseConfig],
             Form_config, Form_Config] @ [BaseConfig]))"
    and n: "24 \<notin> cid ` set (A_config # [A_Config, Cls 21 [] [Form_config, BaseConfig],
             Form_config, Form_Config] @ [BaseConfig])"
    and i: "23 \<notin> cid ` set (A_config # [A_Config, Cls 21 [] [Form_config, BaseConfig],
             Form_config, Form_Config] @ [BaseConfig])"
    and ne: "(23::nat) \<noteq> 24"
    by (simp_all add: AB_defs example_cfg_defs)
  from config_inheritance_per_key [OF mro_A_config d n i ne,
      of "[(''prefix'', CVal (VStr ''b_''))]"]
  show ?thesis
    by (simp add: A_config_new cfg_A_config cfg_prefix_def cfg_model_def cfg_widget_classes_def
        prefix_name_def B_config_inherited_def B_config_overridden_def B_Config_def
        cfg_A_config [unfolded cfg_prefix_def cfg_model_def cfg_widget_classes_def]
        del: mro.simps)
qed

end
